theory Spec2Isabelle
  imports Main "HOL-Library.List_Lexorder" "HOL-Library.Char_ord"
    "HOL-Library.Product_Lexorder" "HOL-Library.Sublist"
begin

section \<open>Python strings\<close>

text \<open>
  A Python \<open>str\<close> is modelled as a \<open>string\<close>; its characters are the code points below
  256. \<open>isspace\<close> is Python's \<open>str.isspace\<close> on that range: TAB, LF, VT, FF, CR, the
  separators 0x1C to 0x1F, the space, NEL (0x85) and the no-break space (0xA0).
  \<open>str.strip()\<close> without argument removes these characters from both ends.
\<close>

definition isspace :: "char \<Rightarrow> bool" where
  "isspace c = (let n = (of_char c :: nat)
                in (9 \<le> n \<and> n \<le> 13) \<or> (28 \<le> n \<and> n \<le> 32) \<or> n = 133 \<or> n = 160)"

definition lstrip :: "string \<Rightarrow> string" where
  "lstrip s = dropWhile isspace s"

definition rstrip :: "string \<Rightarrow> string" where
  "rstrip s = rev (dropWhile isspace (rev s))"

definition strip :: "string \<Rightarrow> string" where
  "strip s = rstrip (lstrip s)"

text \<open>\<open>s.replace(old, new)\<close> for a pattern \<open>old\<close> of one character.\<close>

fun replace_char :: "char \<Rightarrow> string \<Rightarrow> string \<Rightarrow> string" where
  "replace_char old new [] = []"
| "replace_char old new (c # cs) =
     (if c = old then new @ replace_char old new cs else c # replace_char old new cs)"

text \<open>\<open>str(n)\<close> for an \<open>int\<close>: the decimal digits, with a minus sign below zero.\<close>

definition digit_char :: "nat \<Rightarrow> char" where
  "digit_char d = ''0123456789'' ! d"

function str_nat :: "nat \<Rightarrow> string" where
  "str_nat n = (if n < 10 then [digit_char n] else str_nat (n div 10) @ [digit_char (n mod 10)])"
  by pat_completeness auto
termination
  by (relation "measure id") auto

declare str_nat.simps [simp del]

definition str_int :: "int \<Rightarrow> string" where
  "str_int k = (if k < 0 then ''-'' @ str_nat (nat (- k)) else str_nat (nat k))"

section \<open>Exceptions, the files of the problems and the child process\<close>

text \<open>
  An exception is its class and its message \<open>str(e)\<close>. The class is kept because line 12
  of \<open>grader.py\<close> catches \<open>FileNotFoundError\<close> and nothing else.
\<close>

datatype error = Raised string string

abbreviation FileNotFoundError :: "string \<Rightarrow> error" where
  "FileNotFoundError m \<equiv> Raised ''FileNotFoundError'' m"

fun exc_class :: "error \<Rightarrow> string" where
  "exc_class (Raised cls m) = cls"

fun str_error :: "error \<Rightarrow> string" where
  "str_error (Raised cls m) = m"

text \<open>
  A test case is a JSON object with the keys \<open>input\<close> and \<open>expected_output\<close>; a file of
  test cases holds the lists \<open>public_tests\<close> and \<open>hidden_tests\<close> (a missing list reads as
  the empty one, \<open>test_data.get(key, [])\<close>).
\<close>

record test_case =
  input :: string
  expected_output :: string

record test_data =
  public_tests :: "test_case list"
  hidden_tests :: "test_case list"

text \<open>
  The file system, by path. What the program can observe of a path:
  \<^item> \<open>NoSuchFile\<close>: \<open>os.path.exists\<close> is false and \<open>open\<close> raises \<open>FileNotFoundError\<close>;
  \<^item> \<open>Unreadable ex e\<close>: \<open>os.path.exists\<close> returns \<open>ex\<close>, and reading the test cases
    (\<open>open\<close>, \<open>json.load\<close> and the two \<open>get\<close> of lines 10 to 15) raises \<open>e\<close>: a path
    with a NUL character or a name that is too long, a directory, a file that is not JSON,
    a JSON value that is not an object;
  \<^item> \<open>TestFile data\<close>: the path exists and reads as \<open>data\<close>.
\<close>

datatype path_state = NoSuchFile | Unreadable bool error | TestFile test_data

type_synonym filesystem = "string \<Rightarrow> path_state"

fun path_exists :: "path_state \<Rightarrow> bool" where
  "path_exists NoSuchFile = False"
| "path_exists (Unreadable ex e) = ex"
| "path_exists (TestFile data) = True"

text \<open>
  The two paths of a problem id. \<open>grader.py\<close> line 10 opens the f-string
  \<open>test_cases/{problem_id}.json\<close>; \<open>server.py\<close> line 237 checks
  \<open>os.path.join("test_cases", f"{problem_id}.json")\<close>, and \<open>os.path.join\<close> drops its
  first component when the second one is absolute.
\<close>

definition absolute :: "string \<Rightarrow> bool" where
  "absolute p = (case p of [] \<Rightarrow> False | c # cs \<Rightarrow> c = CHR ''/'')"

definition path_join :: "string \<Rightarrow> string \<Rightarrow> string" where
  "path_join a b =
     (if absolute b then b
      else if a = [] \<or> last a = CHR ''/'' then a @ b
      else a @ ''/'' @ b)"

definition grader_path :: "string \<Rightarrow> string" where
  "grader_path pid = ''test_cases/'' @ pid @ ''.json''"

definition server_path :: "string \<Rightarrow> string" where
  "server_path pid = path_join ''test_cases'' (pid @ ''.json'')"

text \<open>
  What happens to one test case between the creation of the temporary file and the return
  of \<open>subprocess.run\<close> is decided outside the program. The four ways the code tells apart:
  \<^item> \<open>TempFileRaised e\<close>: lines 23 to 36 raise \<open>e\<close>, under the outer \<open>try\<close>, which has a
    \<open>finally\<close> and no handler: the temporary file cannot be created or written
    (\<open>FileNotFoundError\<close> when its directory is gone, \<open>OSError\<close> when the disk is full,
    \<open>UnicodeEncodeError\<close>), or the test of this index has no key \<open>input\<close>
    (\<open>KeyError\<close>);
  \<^item> \<open>TimeoutExpired\<close>: the child runs longer than 5 seconds;
  \<^item> \<open>RunRaised m\<close>: inside the inner \<open>try\<close> anything else is raised, with message
    \<open>m\<close>, for example because the interpreter cannot be spawned (the
    \<open>except Exception\<close> of line 65);
  \<^item> \<open>CompletedProcess returncode stdout stderr\<close>: the child ran to its end.
  The environment is a function of the 0-based index of the test and of the text written
  to the temporary file.
\<close>

datatype run_outcome =
    TempFileRaised error
  | TimeoutExpired
  | RunRaised string
  | CompletedProcess int string string

type_synonym runner = "nat \<Rightarrow> string \<Rightarrow> run_outcome"

section \<open>grader.py\<close>

text \<open>The text of the temporary file: the submitted code, then the entry point (lines 25 to 35).\<close>

definition make_script :: "string \<Rightarrow> string \<Rightarrow> string" where
  "make_script code inp =
     code @ ''\<newline>'' @
     ''\<newline>if __name__ == '' @ [CHR 0x22] @ ''__main__'' @ [CHR 0x22] @ '':\<newline>'' @
     ''    import sys\<newline>'' @
     ''    from io import StringIO\<newline>'' @
     ''\<newline>'' @
     ''    input_data = '' @ [CHR 0x22, CHR 0x22, CHR 0x22] @ inp @ [CHR 0x22, CHR 0x22, CHR 0x22] @ ''\<newline>'' @
     ''    sys.stdin = StringIO(input_data)\<newline>'' @
     ''\<newline>'' @
     ''    solve()\<newline>''"

text \<open>Lines 50 to 57: the comparison of the child's output with the expected output.\<close>

definition outputs_match :: "string \<Rightarrow> string \<Rightarrow> bool" where
  "outputs_match stdout expected =
     (let user_output = strip stdout;
          expected_output = strip expected;
          user_output_normalized = replace_char (CHR '' '') [] user_output;
          expected_output_normalized = replace_char (CHR '' '') [] expected_output
      in user_output_normalized = expected_output_normalized)"

text \<open>
  The body of the loop for the test \<open>c\<close> at index \<open>i\<close> (lines 21 to 75): \<open>Inl\<close> is the
  exception that leaves \<open>grade_submission\<close>, \<open>Inr None\<close> the branch \<open>passed_count += 1\<close>,
  \<open>Inr (Some msg)\<close> a branch \<open>error_details.append(msg)\<close>.
\<close>

definition judge_case :: "runner \<Rightarrow> string \<Rightarrow> nat \<Rightarrow> test_case \<Rightarrow> error + string option" where
  "judge_case run code i c =
     (case run i (make_script code (input c)) of
        TempFileRaised e \<Rightarrow> Inl e
      | CompletedProcess returncode stdout stderr \<Rightarrow>
          if returncode \<noteq> 0
          then Inr (Some (''Test '' @ str_nat (i + 1) @ '': Runtime error - '' @ strip stderr))
          else if outputs_match stdout (expected_output c)
          then Inr None
          else Inr (Some (''Test '' @ str_nat (i + 1) @ '': Expected '' @ [CHR 0x27] @
                          strip (expected_output c) @ [CHR 0x27] @ '', got '' @ [CHR 0x27] @
                          strip stdout @ [CHR 0x27]))
      | TimeoutExpired \<Rightarrow>
          Inr (Some (''Test '' @ str_nat (i + 1) @ '': Timeout (exceeded 5 seconds)''))
      | RunRaised m \<Rightarrow>
          Inr (Some (''Test '' @ str_nat (i + 1) @ '': Execution error - '' @ m)))"

text \<open>
  The loop of line 20, \<open>for i, case in enumerate(all_tests)\<close>, on the state
  \<open>(passed_count, error_details)\<close>.
\<close>

fun grade_loop :: "runner \<Rightarrow> string \<Rightarrow> nat \<Rightarrow> test_case list \<Rightarrow> int \<times> string list
    \<Rightarrow> error + int \<times> string list" where
  "grade_loop run code i [] (passed_count, error_details) = Inr (passed_count, error_details)"
| "grade_loop run code i (c # cs) (passed_count, error_details) =
     (case judge_case run code i c of
        Inl e \<Rightarrow> Inl e
      | Inr None \<Rightarrow> grade_loop run code (i + 1) cs (passed_count + 1, error_details)
      | Inr (Some msg) \<Rightarrow> grade_loop run code (i + 1) cs (passed_count, error_details @ [msg]))"

text \<open>
  An entry of the leaderboard, the dictionary \<open>submission_entry\<close> of both files. The
  timestamp is a string: \<open>server.py\<close> stores \<open>datetime.now().isoformat()\<close> and sorts
  by it, and Python compares strings lexicographically by code point.
\<close>

record entry =
  submission_id :: string
  user_id :: string
  problem_id :: string
  score :: int
  replay_result :: string
  timestamp :: string
  error_details :: "string list"

record grade_result =
  result_score :: int
  result_total :: int
  result_replay_result :: string
  result_submission_entry :: entry
  result_error_details :: "string list"

text \<open>
  \<open>grade_submission\<close>; \<open>uuid4\<close> and \<open>utcnow\<close> are the values that \<open>uuid.uuid4()\<close> and
  \<open>datetime.utcnow()\<close> return during the call.
\<close>

definition grade_submission :: "filesystem \<Rightarrow> runner \<Rightarrow> string \<Rightarrow> string
    \<Rightarrow> string \<Rightarrow> string \<Rightarrow> string \<Rightarrow> error + grade_result" where
  "grade_submission fs run uuid4 utcnow code pid uid =
     (case fs (grader_path pid) of
        NoSuchFile \<Rightarrow>
          Inl (FileNotFoundError
                 (''Test cases for '' @ [CHR 0x27] @ pid @ [CHR 0x27] @ '' not found.''))
      | Unreadable ex e \<Rightarrow>
          if exc_class e = ''FileNotFoundError''
          then Inl (FileNotFoundError
                      (''Test cases for '' @ [CHR 0x27] @ pid @ [CHR 0x27] @ '' not found.''))
          else Inl e
      | TestFile data \<Rightarrow>
          let all_tests = public_tests data @ hidden_tests data;
              total_cases = int (length all_tests)
          in (case grade_loop run code 0 all_tests (0, []) of
                Inl e \<Rightarrow> Inl e
              | Inr (passed_count, errs) \<Rightarrow>
                  let verdict = (if passed_count = total_cases then ''passed''
                                 else if passed_count > 0 then ''partially'' else ''failed'');
                      submission_entry =
                        \<lparr>submission_id = uuid4, user_id = uid, problem_id = pid,
                         score = passed_count, replay_result = verdict, timestamp = utcnow,
                         error_details = take 3 errs\<rparr>
                  in Inr \<lparr>result_score = passed_count, result_total = total_cases,
                          result_replay_result = verdict,
                          result_submission_entry = submission_entry,
                          result_error_details = take 5 errs\<rparr>))"

section \<open>server.py\<close>

record submission =
  sub_user_id :: string
  sub_problem_id :: string
  sub_code :: string

record grade_body =
  grade_score :: int
  grade_total :: int
  grade_replay_result :: string
  grade_error_details :: "string list"

record submit_body =
  grade :: grade_body
  leaderboard_entry :: entry

datatype response = HTTPException nat string | Returned submit_body

text \<open>Lines 266 to 270: the index of the first entry of this user for this problem.\<close>

fun find_existing :: "string \<Rightarrow> string \<Rightarrow> nat \<Rightarrow> entry list \<Rightarrow> nat option" where
  "find_existing uid pid i [] = None"
| "find_existing uid pid i (e # es) =
     (if user_id e = uid \<and> problem_id e = pid then Some i
      else find_existing uid pid (i + 1) es)"

text \<open>Lines 272 to 277: the update of the global list \<open>submissions\<close>.\<close>

definition update_leaderboard :: "entry \<Rightarrow> entry list \<Rightarrow> entry list" where
  "update_leaderboard submission_entry submissions =
     (case find_existing (user_id submission_entry) (problem_id submission_entry) 0 submissions of
        Some existing_index \<Rightarrow>
          if score submission_entry > score (submissions ! existing_index)
          then submissions[existing_index := submission_entry]
          else submissions
      | None \<Rightarrow> submissions @ [submission_entry])"

text \<open>
  \<open>submit_code\<close> on the list \<open>submissions\<close>, which it returns updated; \<open>now\<close> is the
  value of \<open>datetime.now().isoformat()\<close>. Writing \<open>leaderboard.json\<close> changes neither
  the response nor the list (a failure there is caught and printed).
\<close>

definition submit_code :: "filesystem \<Rightarrow> runner \<Rightarrow> string \<Rightarrow> string \<Rightarrow> string
    \<Rightarrow> submission \<Rightarrow> entry list \<Rightarrow> response \<times> entry list" where
  "submit_code fs run uuid4 utcnow now sub submissions =
     (if \<not> path_exists (fs (server_path (sub_problem_id sub)))
      then (HTTPException 404 ''Problem test cases not found'', submissions)
      else case grade_submission fs run uuid4 utcnow
                  (sub_code sub) (sub_problem_id sub) (sub_user_id sub) of
             Inl e \<Rightarrow> (HTTPException 500 (''Grading failed: '' @ str_error e), submissions)
           | Inr result \<Rightarrow>
               let submission_entry =
                     \<lparr>submission_id = submission_id (result_submission_entry result),
                      user_id = sub_user_id sub,
                      problem_id = sub_problem_id sub,
                      score = result_score result,
                      replay_result = str_int (result_score result) @ ''/'' @
                                      str_int (result_total result) @ '' tests passed'',
                      timestamp = now,
                      error_details = result_error_details result\<rparr>
               in (Returned
                     \<lparr>grade = \<lparr>grade_score = result_score result,
                               grade_total = result_total result,
                               grade_replay_result = result_replay_result result,
                               grade_error_details = take 3 (result_error_details result)\<rparr>,
                      leaderboard_entry = submission_entry\<rparr>,
                   update_leaderboard submission_entry submissions))"

text \<open>
  \<open>get_leaderboard\<close>. The dictionary \<open>problems\<close> keeps its keys in the order of their
  first insertion, so it is a list of pairs; every entry has the key \<open>problem_id\<close>, so
  the default \<open>"unknown"\<close> of line 450 is never taken.
\<close>

record row =
  row_user_id :: string
  row_problem_id :: string
  row_score :: int
  row_replay_result :: string
  row_timestamp :: string

fun add_to_problems :: "entry \<Rightarrow> (string \<times> entry list) list \<Rightarrow> (string \<times> entry list) list" where
  "add_to_problems e [] = [(problem_id e, [e])]"
| "add_to_problems e ((pid, es) # rest) =
     (if pid = problem_id e then (pid, es @ [e]) # rest
      else (pid, es) # add_to_problems e rest)"

definition group_by_problem :: "entry list \<Rightarrow> (string \<times> entry list) list" where
  "group_by_problem submissions = foldl (\<lambda>problems e. add_to_problems e problems) [] submissions"

definition entry_key :: "entry \<Rightarrow> int \<times> string" where
  "entry_key x = (- score x, timestamp x)"

definition row_key :: "row \<Rightarrow> int \<times> string" where
  "row_key x = (- row_score x, row_timestamp x)"

text \<open>Lines 460 to 471: the first entry of each user, in the order of \<open>sorted_entries\<close>.\<close>

fun best_per_user :: "string \<Rightarrow> entry list \<Rightarrow> string set \<Rightarrow> row list" where
  "best_per_user pid [] seen_users = []"
| "best_per_user pid (e # es) seen_users =
     (if user_id e \<notin> seen_users
      then \<lparr>row_user_id = user_id e, row_problem_id = pid, row_score = score e,
            row_replay_result = replay_result e, row_timestamp = timestamp e\<rparr>
           # best_per_user pid es (insert (user_id e) seen_users)
      else best_per_user pid es seen_users)"

text \<open>\<open>sorted\<close> and \<open>list.sort\<close> are stable, as \<open>sort_key\<close> is.\<close>

definition get_leaderboard :: "entry list \<Rightarrow> row list" where
  "get_leaderboard submissions =
     (if submissions = [] then []
      else sort_key row_key
             (concat (map (\<lambda>(pid, entries). best_per_user pid (sort_key entry_key entries) {})
                          (group_by_problem submissions))))"

section \<open>Notions of the statements\<close>

text \<open>
  The failed tests of a run of the loop from index \<open>i\<close>: the 0-based index of each test
  whose body appends a message, with that message, in the order of the tests.
\<close>

fun failures :: "runner \<Rightarrow> string \<Rightarrow> nat \<Rightarrow> test_case list \<Rightarrow> (nat \<times> string) list" where
  "failures run code i [] = []"
| "failures run code i (c # cs) =
     (case judge_case run code i c of
        Inr (Some msg) \<Rightarrow> (i, msg) # failures run code (i + 1) cs
      | _ \<Rightarrow> failures run code (i + 1) cs)"

definition tempfile_raises :: "run_outcome \<Rightarrow> bool" where
  "tempfile_raises r = (case r of TempFileRaised m \<Rightarrow> True | _ \<Rightarrow> False)"

text \<open>The pair that identifies an entry of the leaderboard.\<close>

definition entry_pair :: "entry \<Rightarrow> string \<times> string" where
  "entry_pair e = (user_id e, problem_id e)"

text \<open>The row that \<open>get_leaderboard\<close> builds from an entry, and the pair that identifies it.\<close>

definition row_of :: "entry \<Rightarrow> row" where
  "row_of e = \<lparr>row_user_id = user_id e, row_problem_id = problem_id e, row_score = score e,
               row_replay_result = replay_result e, row_timestamp = timestamp e\<rparr>"

definition row_pair :: "row \<Rightarrow> string \<times> string" where
  "row_pair r = (row_user_id r, row_problem_id r)"

text \<open>
  The comparator in the words of the specification: trim the whitespace at both ends,
  then delete every space character that is left, then compare.
\<close>

definition spec_trim :: "string \<Rightarrow> string" where
  "spec_trim s = rev (dropWhile isspace (rev (dropWhile isspace s)))"

definition spec_normalize :: "string \<Rightarrow> string" where
  "spec_normalize s = filter (\<lambda>c. c \<noteq> CHR '' '') (spec_trim s)"

definition spec_compare :: "string \<Rightarrow> string \<Rightarrow> bool" where
  "spec_compare actual expected = (spec_normalize actual = spec_normalize expected)"

subsection \<open>Concrete environments and data\<close>

definition child_exits_1 :: runner where
  "child_exits_1 i script = CompletedProcess 1 [] ''boom\<newline>''"

definition child_prints_4 :: runner where
  "child_prints_4 i script = CompletedProcess 0 ''4\<newline>'' []"

definition child_hangs :: runner where
  "child_hangs i script = TimeoutExpired"

definition spawn_fails :: runner where
  "spawn_fails i script = RunRaised ''No such file or directory''"

definition disk_full :: runner where
  "disk_full i script = TempFileRaised (Raised ''OSError'' ''No space left on device'')"


text \<open>A file system with one file of test cases.\<close>

definition only_file :: "string \<Rightarrow> test_data \<Rightarrow> filesystem" where
  "only_file path data p = (if p = path then TestFile data else NoSuchFile)"

definition no_tests :: test_data where
  "no_tests = \<lparr>public_tests = [], hidden_tests = []\<rparr>"

definition one_test :: test_data where
  "one_test = \<lparr>public_tests = [\<lparr>input = ''1 2'', expected_output = ''3''\<rparr>],
               hidden_tests = []\<rparr>"

definition sum_case :: test_case where
  "sum_case = \<lparr>input = ''1 2'', expected_output = ''3''\<rparr>"

definition four_tests :: test_data where
  "four_tests =
     \<lparr>public_tests = [\<lparr>input = ''1 2'', expected_output = ''3''\<rparr>,
                      \<lparr>input = ''2 2'', expected_output = ''4''\<rparr>],
      hidden_tests = [\<lparr>input = ''0 0'', expected_output = ''0''\<rparr>,
                      \<lparr>input = ''5 5'', expected_output = ''10''\<rparr>]\<rparr>"

text \<open>The report of \<open>four_tests\<close> for a child that always prints 4: the second test passes.\<close>

definition expected_got :: "string \<Rightarrow> string \<Rightarrow> string \<Rightarrow> string" where
  "expected_got n e a =
     ''Test '' @ n @ '': Expected '' @ [CHR 0x27] @ e @ [CHR 0x27] @ '', got '' @ [CHR 0x27] @ a @ [CHR 0x27]"

definition report_1_of_4 :: grade_result where
  "report_1_of_4 =
     \<lparr>result_score = 1, result_total = 4, result_replay_result = ''partially'',
      result_submission_entry =
        \<lparr>submission_id = ''id-1'', user_id = ''alice'', problem_id = ''sum'', score = 1,
         replay_result = ''partially'', timestamp = ''t0'',
         error_details = [expected_got ''1'' ''3'' ''4'', expected_got ''3'' ''0'' ''4'',
                          expected_got ''4'' ''10'' ''4'']\<rparr>,
      result_error_details = [expected_got ''1'' ''3'' ''4'', expected_got ''3'' ''0'' ''4'',
                              expected_got ''4'' ''10'' ''4'']\<rparr>"

definition alice_sum :: submission where
  "alice_sum = \<lparr>sub_user_id = ''alice'', sub_problem_id = ''sum'', sub_code = ''def solve(): pass''\<rparr>"



definition ranked :: "string \<Rightarrow> string \<Rightarrow> string \<Rightarrow> int \<Rightarrow> string \<Rightarrow> entry" where
  "ranked sid uid pid s t =
     \<lparr>submission_id = sid, user_id = uid, problem_id = pid, score = s,
      replay_result = str_int s @ ''/6 tests passed'', timestamp = t, error_details = []\<rparr>"

section \<open>The grading loop\<close>

lemma length_failures: "length (failures run code i cs) \<le> length cs"
proof (induction cs arbitrary: i)
  case Nil
  then show ?case by simp
next
  case (Cons c cs)
  from Cons.IH [of "i + 1"] show ?case
    by (simp split: sum.splits option.splits)
qed

lemma grade_loop_Inr:
  "grade_loop run code i cs (p, errs) = Inr (p', errs') \<Longrightarrow>
     errs' = errs @ map snd (failures run code i cs) \<and>
     p' + int (length (failures run code i cs)) = p + int (length cs)"
proof (induction cs arbitrary: i p errs)
  case Nil
  then show ?case by simp
next
  case (Cons c cs)
  show ?case
  proof (cases "judge_case run code i c")
    case (Inl e)
    with Cons.prems show ?thesis by simp
  next
    case (Inr v)
    show ?thesis
    proof (cases v)
      case None
      with Inr Cons.prems have "grade_loop run code (i + 1) cs (p + 1, errs) = Inr (p', errs')"
        by simp
      from Cons.IH [OF this] Inr None show ?thesis by simp
    next
      case (Some msg)
      with Inr Cons.prems have "grade_loop run code (i + 1) cs (p, errs @ [msg]) = Inr (p', errs')"
        by simp
      from Cons.IH [OF this] Inr Some show ?thesis by simp
    qed
  qed
qed

lemma failures_index:
  "(k, m) \<in> set (failures run code i cs) \<Longrightarrow>
     i \<le> k \<and> k < i + length cs \<and> judge_case run code k (cs ! (k - i)) = Inr (Some m)"
proof (induction cs arbitrary: i)
  case Nil
  then show ?case by simp
next
  case (Cons c cs)
  show ?case
  proof (cases "(k, m) \<in> set (failures run code (i + 1) cs)")
    case True
    from Cons.IH [OF True]
    have ih: "i + 1 \<le> k" "k < i + 1 + length cs"
      "judge_case run code k (cs ! (k - (i + 1))) = Inr (Some m)"
      by simp_all
    from ih(1) have "k - i = Suc (k - (i + 1))" by simp
    then have "(c # cs) ! (k - i) = cs ! (k - (i + 1))" by simp
    with ih show ?thesis by simp
  next
    case False
    with Cons.prems have "k = i \<and> judge_case run code i c = Inr (Some m)"
      by (auto split: sum.splits option.splits)
    then show ?thesis by simp
  qed
qed

lemma failures_complete:
  "k < length cs \<Longrightarrow> judge_case run code (i + k) (cs ! k) = Inr (Some m) \<Longrightarrow>
     (i + k, m) \<in> set (failures run code i cs)"
proof (induction cs arbitrary: i k)
  case Nil
  then show ?case by simp
next
  case (Cons c cs)
  show ?case
  proof (cases k)
    case 0
    with Cons.prems show ?thesis by simp
  next
    case (Suc j)
    with Cons.prems have "j < length cs" "judge_case run code (i + 1 + j) (cs ! j) = Inr (Some m)"
      by simp_all
    from Cons.IH [OF this] Suc show ?thesis
      by (simp split: sum.splits option.splits)
  qed
qed

lemma failures_increasing: "sorted_wrt (<) (map fst (failures run code i cs))"
proof (induction cs arbitrary: i)
  case Nil
  then show ?case by simp
next
  case (Cons c cs)
  have "\<forall>x \<in> set (failures run code (i + 1) cs). i < fst x"
    using failures_index [of _ _ run code "i + 1" cs] by fastforce
  with Cons.IH [of "i + 1"] show ?case
    by (auto split: sum.splits option.splits)
qed

lemma judge_case_prefix:
  "judge_case run code i c = Inr (Some m) \<Longrightarrow> prefix (''Test '' @ str_nat (i + 1) @ '': '') m"
  unfolding judge_case_def
  by (auto split: run_outcome.splits if_splits)

lemma judge_case_Inl:
  "(\<exists>e. judge_case run code i c = Inl e) = tempfile_raises (run i (make_script code (input c)))"
  unfolding judge_case_def tempfile_raises_def
  by (auto split: run_outcome.splits)

lemma tempfile_raises_shift:
  "(\<exists>k < length (c # cs). tempfile_raises (run (i + k) (make_script code (input ((c # cs) ! k))))) =
   (tempfile_raises (run i (make_script code (input c))) \<or>
    (\<exists>k < length cs. tempfile_raises (run (i + 1 + k) (make_script code (input (cs ! k))))))"
  (is "?L = (?A \<or> ?B)")
proof
  assume ?L
  then obtain k where k: "k < length (c # cs)"
    "tempfile_raises (run (i + k) (make_script code (input ((c # cs) ! k))))" by blast
  show "?A \<or> ?B"
  proof (cases k)
    case 0
    with k show ?thesis by simp
  next
    case (Suc j)
    with k have "j < length cs \<and> tempfile_raises (run (i + 1 + j) (make_script code (input (cs ! j))))"
      by simp
    then show ?thesis by blast
  qed
next
  assume "?A \<or> ?B"
  then show ?L
  proof
    assume ?A
    then have "0 < length (c # cs) \<and>
        tempfile_raises (run (i + 0) (make_script code (input ((c # cs) ! 0))))"
      by simp
    then show ?L by blast
  next
    assume ?B
    then obtain j where "j < length cs"
      "tempfile_raises (run (i + 1 + j) (make_script code (input (cs ! j))))"
      by blast
    then have "Suc j < length (c # cs) \<and>
        tempfile_raises (run (i + Suc j) (make_script code (input ((c # cs) ! Suc j))))"
      by simp
    then show ?L by blast
  qed
qed

text \<open>The loop is left by an exception exactly when some temporary file cannot be written.\<close>

lemma grade_loop_raises:
  "(\<exists>e. grade_loop run code i cs (p, errs) = Inl e) =
   (\<exists>k < length cs. tempfile_raises (run (i + k) (make_script code (input (cs ! k)))))"
proof (induction cs arbitrary: i p errs)
  case Nil
  then show ?case by simp
next
  case (Cons c cs)
  note shift = tempfile_raises_shift [of c cs run i code]
  show ?case
  proof (cases "judge_case run code i c")
    case (Inl e)
    then have "tempfile_raises (run i (make_script code (input c)))"
      using judge_case_Inl [of run code i c] by auto
    with Inl shift show ?thesis by simp
  next
    case (Inr v)
    then have no: "\<not> tempfile_raises (run i (make_script code (input c)))"
      using judge_case_Inl [of run code i c] by auto
    show ?thesis
    proof (cases v)
      case None
      with Inr no shift Cons.IH [of "i + 1" "p + 1" errs] show ?thesis by simp
    next
      case (Some msg)
      with Inr no shift Cons.IH [of "i + 1" p "errs @ [msg]"] show ?thesis by simp
    qed
  qed
qed

text \<open>What \<open>grade_submission\<close> returns for a problem whose file is read, from the result of the loop.\<close>

lemma grade_submission_Inr:
  assumes "fs (grader_path pid) = TestFile data"
    and "grade_submission fs run uuid4 utcnow code pid uid = Inr r"
  shows "\<exists>p errs. grade_loop run code 0 (public_tests data @ hidden_tests data) (0, []) = Inr (p, errs)
           \<and> result_score r = p
           \<and> result_total r = int (length (public_tests data @ hidden_tests data))
           \<and> result_replay_result r =
               (if p = int (length (public_tests data @ hidden_tests data)) then ''passed''
                else if p > 0 then ''partially'' else ''failed'')
           \<and> result_error_details r = take 5 errs
           \<and> error_details (result_submission_entry r) = take 3 errs
           \<and> submission_id (result_submission_entry r) = uuid4"
  using assms unfolding grade_submission_def
  by (auto simp: Let_def split: sum.splits prod.splits)


lemma grade_submission_returns:
  assumes "fs (grader_path pid) = TestFile data"
  shows "(\<exists>r. grade_submission fs run uuid4 utcnow code pid uid = Inr r) =
         (\<forall>k < length (public_tests data @ hidden_tests data).
            \<not> tempfile_raises (run k (make_script code
                 (input ((public_tests data @ hidden_tests data) ! k)))))"
proof -
  let ?tests = "public_tests data @ hidden_tests data"
  have "(\<exists>r. grade_submission fs run uuid4 utcnow code pid uid = Inr r) =
        (\<exists>v. grade_loop run code 0 ?tests (0, []) = Inr v)"
    using assms unfolding grade_submission_def
    by (auto simp: Let_def split: sum.splits prod.splits)
  also have "\<dots> = (\<not> (\<exists>e. grade_loop run code 0 ?tests (0, []) = Inl e))"
    by (cases "grade_loop run code 0 ?tests (0, [])") auto
  also have "\<dots> = (\<forall>k < length ?tests.
      \<not> tempfile_raises (run k (make_script code (input (?tests ! k)))))"
    using grade_loop_raises [of run code 0 ?tests 0 "[]"] by simp
  finally show ?thesis .
qed

lemmas eval_defs = grade_submission_def judge_case_def outputs_match_def strip_def lstrip_def
  rstrip_def isspace_def digit_char_def str_nat.simps Let_def only_file_def grader_path_def

lemmas submit_defs = submit_code_def update_leaderboard_def str_int_def server_path_def path_join_def
  absolute_def

lemma grade_four_tests:
  "grade_submission (only_file ''test_cases/sum.json'' four_tests) child_prints_4 ''id-1'' ''t0'' ''def solve(): pass''
     ''sum'' ''alice'' = Inr report_1_of_4"
  by (simp add: eval_defs four_tests_def child_prints_4_def report_1_of_4_def expected_got_def)

section \<open>The verdict\<close>

text \<open>
  Claim C1, as the code computes it. Lines 77 to 79 test \<open>passed_count == total_cases\<close>
  first, so the verdict of a graded submission is \<open>passed\<close> exactly when the score equals
  the total (also when both are 0), \<open>failed\<close> exactly when the score is 0 and the total
  is not, and \<open>partially\<close> exactly in the remaining case; the score lies between 0 and the
  total.
\<close>

theorem verdict_of_grade:
  assumes "grade_submission fs run uuid4 utcnow code pid uid = Inr r"
  shows "0 \<le> result_score r \<and> result_score r \<le> result_total r \<and>
         (result_replay_result r = ''passed'') = (result_score r = result_total r) \<and>
         (result_replay_result r = ''failed'') = (result_score r = 0 \<and> result_total r \<noteq> 0) \<and>
         (result_replay_result r = ''partially'') =
           (result_score r \<noteq> result_total r \<and> result_score r \<noteq> 0)"
proof -
  from assms obtain data where data: "fs (grader_path pid) = TestFile data"
    unfolding grade_submission_def by (cases "fs (grader_path pid)") (auto split: if_splits)
  let ?tests = "public_tests data @ hidden_tests data"
  from grade_submission_Inr [of fs pid data run uuid4 utcnow code uid r] data assms
  obtain p errs where
    loop: "grade_loop run code 0 ?tests (0, []) = Inr (p, errs)"
    and r: "result_score r = p" "result_total r = int (length ?tests)"
      "result_replay_result r =
         (if p = int (length ?tests) then ''passed'' else if p > 0 then ''partially'' else ''failed'')"
    by blast
  from grade_loop_Inr [OF loop] length_failures [of run code 0 ?tests]
  have "0 \<le> p" "p \<le> int (length ?tests)" by linarith+
  with r show ?thesis by auto
qed

text \<open>
  Witness for C1: one test of four passes, the verdict is \<open>partially\<close>.
\<close>

theorem verdict_of_grade_witness:
  "grade_submission (only_file ''test_cases/sum.json'' four_tests) child_prints_4 ''id-1'' ''t0'' ''def solve(): pass''
     ''sum'' ''alice'' = Inr report_1_of_4 \<and>
   0 \<le> result_score report_1_of_4 \<and> result_score report_1_of_4 \<le> result_total report_1_of_4 \<and>
   (result_replay_result report_1_of_4 = ''passed'') =
     (result_score report_1_of_4 = result_total report_1_of_4) \<and>
   (result_replay_result report_1_of_4 = ''failed'') =
     (result_score report_1_of_4 = 0 \<and> result_total report_1_of_4 \<noteq> 0) \<and>
   (result_replay_result report_1_of_4 = ''partially'') =
     (result_score report_1_of_4 \<noteq> result_total report_1_of_4 \<and> result_score report_1_of_4 \<noteq> 0)"
  using verdict_of_grade [OF grade_four_tests] grade_four_tests by simp

text \<open>
  Counterexample to C1 as stated: a problem whose two lists are empty is graded with
  score 0 and total 0, and the verdict is \<open>passed\<close>, not \<open>failed\<close>, although the score
  is 0.
\<close>

theorem verdict_empty_suite_counterexample:
  "grade_submission (only_file ''test_cases/warmup.json'' no_tests) child_exits_1 ''id-1'' ''t0'' ''def solve(): pass''
     ''warmup'' ''alice'' =
     Inr \<lparr>result_score = 0, result_total = 0, result_replay_result = ''passed'',
          result_submission_entry =
            \<lparr>submission_id = ''id-1'', user_id = ''alice'', problem_id = ''warmup'', score = 0,
             replay_result = ''passed'', timestamp = ''t0'', error_details = []\<rparr>,
          result_error_details = []\<rparr>"
  by (simp add: grade_submission_def no_tests_def Let_def only_file_def grader_path_def)

section \<open>The total and the score\<close>

text \<open>
  Claim C9: for a problem of the store, the report that \<open>grade_submission\<close> returns has a
  total equal to the number of public tests plus the number of hidden tests, its score
  lies between 0 and the total, and its diagnostics are the first five messages of the
  failed tests of the list public tests followed by hidden tests, numbered in that order.
  A report is returned whenever every temporary file can be written.
\<close>

theorem total_count_and_bounds:
  assumes "fs (grader_path pid) = TestFile data"
  shows "(grade_submission fs run uuid4 utcnow code pid uid = Inr r \<longrightarrow>
            result_total r = int (length (public_tests data)) + int (length (hidden_tests data)) \<and>
            0 \<le> result_score r \<and> result_score r \<le> result_total r \<and>
            result_error_details r =
              take 5 (map snd (failures run code 0 (public_tests data @ hidden_tests data)))) \<and>
         ((\<forall>k < length (public_tests data @ hidden_tests data).
             \<not> tempfile_raises (run k (make_script code
                  (input ((public_tests data @ hidden_tests data) ! k))))) \<longrightarrow>
            (\<exists>r'. grade_submission fs run uuid4 utcnow code pid uid = Inr r'))"
proof (intro conjI impI)
  let ?tests = "public_tests data @ hidden_tests data"
  assume g: "grade_submission fs run uuid4 utcnow code pid uid = Inr r"
  from grade_submission_Inr [of fs pid data run uuid4 utcnow code uid r] assms g
  obtain p errs where
    loop: "grade_loop run code 0 ?tests (0, []) = Inr (p, errs)"
    and r: "result_score r = p" "result_total r = int (length ?tests)"
      "result_error_details r = take 5 errs"
    by blast
  from grade_loop_Inr [OF loop] length_failures [of run code 0 ?tests]
  have p: "0 \<le> p" "p \<le> int (length ?tests)" and errs: "errs = map snd (failures run code 0 ?tests)"
    by simp_all
  from r show "result_total r = int (length (public_tests data)) + int (length (hidden_tests data))"
    by simp
  from r p show "0 \<le> result_score r" by simp
  from r p show "result_score r \<le> result_total r" by simp
  from r errs show "result_error_details r = take 5 (map snd (failures run code 0 ?tests))" by simp
next
  assume "\<forall>k < length (public_tests data @ hidden_tests data).
             \<not> tempfile_raises (run k (make_script code
                  (input ((public_tests data @ hidden_tests data) ! k))))"
  with assms grade_submission_returns [of fs pid data run uuid4 utcnow code uid]
  show "\<exists>r'. grade_submission fs run uuid4 utcnow code pid uid = Inr r'" by simp
qed

text \<open>
  Witness for C9: two public and two hidden tests, no temporary file fails, the total is 4.
\<close>

theorem total_count_and_bounds_witness:
  "only_file ''test_cases/sum.json'' four_tests (grader_path ''sum'') = TestFile four_tests \<and>
   list_all (\<lambda>k. \<not> tempfile_raises (child_prints_4 k (make_script ''def solve(): pass''
      (input ((public_tests four_tests @ hidden_tests four_tests) ! k))))) [0..<4] \<and>
   grade_submission (only_file ''test_cases/sum.json'' four_tests) child_prints_4 ''id-1'' ''t0'' ''def solve(): pass''
     ''sum'' ''alice'' = Inr report_1_of_4 \<and>
   result_total report_1_of_4 =
     int (length (public_tests four_tests)) + int (length (hidden_tests four_tests)) \<and>
   0 \<le> result_score report_1_of_4 \<and> result_score report_1_of_4 \<le> result_total report_1_of_4 \<and>
   result_error_details report_1_of_4 =
     take 5 (map snd (failures child_prints_4 ''def solve(): pass'' 0
                        (public_tests four_tests @ hidden_tests four_tests)))"
proof -
  have s: "only_file ''test_cases/sum.json'' four_tests (grader_path ''sum'') = TestFile four_tests"
    by (simp add: only_file_def grader_path_def)
  have t: "list_all (\<lambda>k. \<not> tempfile_raises (child_prints_4 k (make_script ''def solve(): pass''
      (input ((public_tests four_tests @ hidden_tests four_tests) ! k))))) [0..<4]"
    by (simp add: list_all_iff child_prints_4_def tempfile_raises_def)
  from total_count_and_bounds [of "only_file ''test_cases/sum.json'' four_tests" "''sum''" four_tests child_prints_4
      "''id-1''" "''t0''" "''def solve(): pass''" "''alice''" report_1_of_4] grade_four_tests s t
  show ?thesis by simp
qed

section \<open>One outcome for each test\<close>

text \<open>
  Claim C10: in a graded submission every test either adds 1 to the score or appends one
  message. The loop returns the score with the messages of the failed tests, so the score
  plus the number of messages accumulated before truncation is the total; the failed tests
  are listed with strictly increasing indices, the message of the test of index \<open>k\<close>
  starts with \<open>Test k+1:\<close>, and a test adds to the score exactly when it is not among
  the failed ones.
\<close>

theorem one_outcome_per_test:
  assumes "fs (grader_path pid) = TestFile data"
    and "grade_submission fs run uuid4 utcnow code pid uid = Inr r"
  shows "grade_loop run code 0 (public_tests data @ hidden_tests data) (0, []) =
           Inr (result_score r, map snd (failures run code 0 (public_tests data @ hidden_tests data))) \<and>
         result_score r + int (length (failures run code 0 (public_tests data @ hidden_tests data))) =
           result_total r \<and>
         sorted_wrt (<) (map fst (failures run code 0 (public_tests data @ hidden_tests data))) \<and>
         (\<forall>(k, m) \<in> set (failures run code 0 (public_tests data @ hidden_tests data)).
            k < length (public_tests data @ hidden_tests data) \<and>
            judge_case run code k ((public_tests data @ hidden_tests data) ! k) = Inr (Some m) \<and>
            prefix (''Test '' @ str_nat (k + 1) @ '': '') m) \<and>
         (\<forall>k < length (public_tests data @ hidden_tests data).
            (judge_case run code k ((public_tests data @ hidden_tests data) ! k) = Inr None) =
            (k \<notin> fst ` set (failures run code 0 (public_tests data @ hidden_tests data))))"
proof -
  let ?tests = "public_tests data @ hidden_tests data"
  let ?fs = "failures run code 0 ?tests"
  from grade_submission_Inr [of fs pid data run uuid4 utcnow code uid r] assms obtain p errs where
    loop: "grade_loop run code 0 ?tests (0, []) = Inr (p, errs)"
    and r: "result_score r = p" "result_total r = int (length ?tests)"
    by blast
  from grade_loop_Inr [OF loop]
  have errs: "errs = map snd ?fs" and count: "p + int (length ?fs) = int (length ?tests)"
    by simp_all
  have c1: "grade_loop run code 0 ?tests (0, []) = Inr (result_score r, map snd ?fs)"
    using loop r errs by simp
  have c2: "result_score r + int (length ?fs) = result_total r"
    using r count by simp
  have c3: "sorted_wrt (<) (map fst ?fs)"
    by (rule failures_increasing)
  have c4: "\<forall>(k, m) \<in> set ?fs. k < length ?tests \<and>
      judge_case run code k (?tests ! k) = Inr (Some m) \<and>
      prefix (''Test '' @ str_nat (k + 1) @ '': '') m"
  proof (clarify, intro conjI)
    fix k m assume km: "(k, m) \<in> set ?fs"
    from failures_index [OF km]
    show "k < length ?tests" and j: "judge_case run code k (?tests ! k) = Inr (Some m)"
      by simp_all
    from judge_case_prefix [OF j] show "prefix (''Test '' @ str_nat (k + 1) @ '': '') m" .
  qed
  have c5: "\<forall>k < length ?tests.
      (judge_case run code k (?tests ! k) = Inr None) = (k \<notin> fst ` set ?fs)"
  proof (intro allI impI)
    fix k assume k: "k < length ?tests"
    have "\<not> (\<exists>e. grade_loop run code 0 ?tests (0, []) = Inl e)"
      using loop by simp
    with grade_loop_raises [of run code 0 ?tests 0 "[]"] k
    have "\<not> tempfile_raises (run k (make_script code (input (?tests ! k))))"
      by simp
    with judge_case_Inl [of run code k "?tests ! k"]
    have noexc: "\<forall>e. judge_case run code k (?tests ! k) \<noteq> Inl e" by blast
    show "(judge_case run code k (?tests ! k) = Inr None) = (k \<notin> fst ` set ?fs)"
    proof (cases "judge_case run code k (?tests ! k)")
      case (Inl e)
      with noexc show ?thesis by simp
    next
      case (Inr v)
      show ?thesis
      proof (cases v)
        case None
        have "k \<notin> fst ` set ?fs"
        proof
          assume "k \<in> fst ` set ?fs"
          then obtain m where "(k, m) \<in> set ?fs" by auto
          from failures_index [OF this] Inr None show False by simp
        qed
        with Inr None show ?thesis by simp
      next
        case (Some m)
        with Inr failures_complete [of k ?tests run code 0 m] k
        have "(k, m) \<in> set ?fs" by simp
        then have "k \<in> fst ` set ?fs" by force
        with Inr Some show ?thesis by simp
      qed
    qed
  qed
  from c1 c2 c3 c4 c5 show ?thesis by blast
qed

text \<open>
  Witness for C10: the tests of index 0, 2 and 3 fail, the score is 1 and the total 4.
\<close>

theorem one_outcome_per_test_witness:
  "only_file ''test_cases/sum.json'' four_tests (grader_path ''sum'') = TestFile four_tests \<and>
   grade_submission (only_file ''test_cases/sum.json'' four_tests) child_prints_4 ''id-1'' ''t0'' ''def solve(): pass''
     ''sum'' ''alice'' = Inr report_1_of_4 \<and>
   failures child_prints_4 ''def solve(): pass'' 0 (public_tests four_tests @ hidden_tests four_tests) =
     [(0, expected_got ''1'' ''3'' ''4''), (2, expected_got ''3'' ''0'' ''4''),
      (3, expected_got ''4'' ''10'' ''4'')] \<and>
   result_score report_1_of_4 +
     int (length (failures child_prints_4 ''def solve(): pass'' 0
                    (public_tests four_tests @ hidden_tests four_tests))) =
     result_total report_1_of_4 \<and>
   sorted_wrt (<) (map fst (failures child_prints_4 ''def solve(): pass'' 0
                              (public_tests four_tests @ hidden_tests four_tests)))"
proof -
  have s: "only_file ''test_cases/sum.json'' four_tests (grader_path ''sum'') = TestFile four_tests"
    by (simp add: only_file_def grader_path_def)
  have f: "failures child_prints_4 ''def solve(): pass'' 0 (public_tests four_tests @ hidden_tests four_tests) =
     [(0, expected_got ''1'' ''3'' ''4''), (2, expected_got ''3'' ''0'' ''4''),
      (3, expected_got ''4'' ''10'' ''4'')]"
    by (simp add: eval_defs four_tests_def child_prints_4_def expected_got_def)
  from one_outcome_per_test [of "only_file ''test_cases/sum.json'' four_tests" "''sum''" four_tests child_prints_4
      "''id-1''" "''t0''" "''def solve(): pass''" "''alice''" report_1_of_4] s f grade_four_tests
  show ?thesis by blast
qed

section \<open>The comparison of outputs\<close>

lemma replace_space_filter: "replace_char (CHR '' '') [] s = filter (\<lambda>c. c \<noteq> CHR '' '') s"
  by (induction s) auto

lemma outputs_match_spec: "outputs_match actual expected = spec_compare actual expected"
  by (simp add: outputs_match_def spec_compare_def spec_normalize_def spec_trim_def strip_def
      lstrip_def rstrip_def replace_space_filter Let_def)

lemma spec_normalize_Nil: "spec_normalize [] = []"
  by (simp add: spec_normalize_def spec_trim_def)

text \<open>
  Claim C2: the comparison of lines 50 to 57 is the comparator of the specification: trim
  the whitespace at both ends of both strings, delete every space that is left (a newline
  stays), and test equality. The four examples of the specification hold, an empty expected
  output matches exactly the outputs that normalize to the empty string, a newline inside
  the output is kept, and a test whose child exits with code 0 passes exactly when the
  comparator accepts its output.
\<close>

theorem comparator_refines_spec:
  "outputs_match actual expected = spec_compare actual expected \<and>
   outputs_match actual [] = (spec_normalize actual = []) \<and>
   outputs_match ''1 2 3'' ''1  2   3'' \<and>
   \<not> outputs_match ''abc'' ''abd'' \<and>
   outputs_match [] [] \<and>
   outputs_match '' x '' ''x'' \<and>
   \<not> outputs_match ''a\<newline>b'' ''ab'' \<and>
   (run i (make_script code (input c)) = CompletedProcess 0 out err \<longrightarrow>
      (judge_case run code i c = Inr None) = spec_compare out (expected_output c))"
proof (intro conjI impI)
  show "outputs_match actual expected = spec_compare actual expected"
    by (rule outputs_match_spec)
  show "outputs_match actual [] = (spec_normalize actual = [])"
    by (simp add: outputs_match_spec spec_compare_def spec_normalize_Nil)
  show "outputs_match ''1 2 3'' ''1  2   3''"
    by (simp add: outputs_match_def strip_def lstrip_def rstrip_def isspace_def)
  show "\<not> outputs_match ''abc'' ''abd''"
    by (simp add: outputs_match_def strip_def lstrip_def rstrip_def isspace_def)
  show "outputs_match [] []"
    by (simp add: outputs_match_def)
  show "outputs_match '' x '' ''x''"
    by (simp add: outputs_match_def strip_def lstrip_def rstrip_def isspace_def)
  show "\<not> outputs_match ''a\<newline>b'' ''ab''"
    by (simp add: outputs_match_def strip_def lstrip_def rstrip_def isspace_def)
next
  assume "run i (make_script code (input c)) = CompletedProcess 0 out err"
  then show "(judge_case run code i c = Inr None) = spec_compare out (expected_output c)"
    by (simp add: judge_case_def outputs_match_spec)
qed

text \<open>
  Witness for C2: the child prints \<open>4\<close> and a newline, the expected output is \<open>4\<close>.
\<close>

theorem comparator_refines_spec_witness:
  "child_prints_4 1 (make_script ''def solve(): pass'' (input \<lparr>input = ''2 2'', expected_output = ''4''\<rparr>)) =
     CompletedProcess 0 ''4\<newline>'' [] \<and>
   judge_case child_prints_4 ''def solve(): pass'' 1 \<lparr>input = ''2 2'', expected_output = ''4''\<rparr> = Inr None \<and>
   spec_compare ''4\<newline>'' (expected_output \<lparr>input = ''2 2'', expected_output = ''4''\<rparr>) \<and>
   outputs_match ''4\<newline>'' ''4''"
proof -
  have h: "child_prints_4 1 (make_script ''def solve(): pass'' (input \<lparr>input = ''2 2'', expected_output = ''4''\<rparr>)) =
     CompletedProcess 0 ''4\<newline>'' []"
    by (simp add: child_prints_4_def)
  have j: "judge_case child_prints_4 ''def solve(): pass'' 1 \<lparr>input = ''2 2'', expected_output = ''4''\<rparr> = Inr None"
    by (simp add: eval_defs child_prints_4_def)
  from comparator_refines_spec [of "''4\<newline>''" "''4''" child_prints_4 1 "''def solve(): pass''"
      "\<lparr>input = ''2 2'', expected_output = ''4''\<rparr>" "''4\<newline>''" "[]"] h j
  show ?thesis by simp
qed

section \<open>A problem whose file is missing\<close>




lemma submit_code_500:
  "path_exists (fs (server_path (sub_problem_id sub))) \<Longrightarrow>
     grade_submission fs run uuid4 utcnow (sub_code sub) (sub_problem_id sub) (sub_user_id sub) = Inl e \<Longrightarrow>
     submit_code fs run uuid4 utcnow now sub subs =
       (HTTPException 500 (''Grading failed: '' @ str_error e), subs)"
  by (simp add: submit_code_def)





section \<open>The diagnostics that are kept\<close>

lemma diagnostics_caps:
  assumes "fs (grader_path pid) = TestFile data"
    and "grade_submission fs run uuid4 utcnow code pid uid = Inr r"
  shows "result_error_details r =
           take 5 (map snd (failures run code 0 (public_tests data @ hidden_tests data)))"
    and "error_details (result_submission_entry r) =
           take 3 (map snd (failures run code 0 (public_tests data @ hidden_tests data)))"
    and "length (result_error_details r) \<le> 5"
    and "length (error_details (result_submission_entry r)) \<le> 3"
proof -
  let ?tests = "public_tests data @ hidden_tests data"
  from grade_submission_Inr [of fs pid data run uuid4 utcnow code uid r] assms
  obtain p errs where
    loop: "grade_loop run code 0 ?tests (0, []) = Inr (p, errs)"
    and r: "result_error_details r = take 5 errs"
      "error_details (result_submission_entry r) = take 3 errs"
    by blast
  from grade_loop_Inr [OF loop] have "errs = map snd (failures run code 0 ?tests)" by simp
  with r show "result_error_details r = take 5 (map snd (failures run code 0 ?tests))"
    and "error_details (result_submission_entry r) = take 3 (map snd (failures run code 0 ?tests))"
    by simp_all
  from r show "length (result_error_details r) \<le> 5"
    and "length (error_details (result_submission_entry r)) \<le> 3"
    by simp_all
qed

lemma submit_code_diagnostics:
  assumes "grade_submission fs run uuid4 utcnow (sub_code sub) (sub_problem_id sub) (sub_user_id sub) = Inr r"
    and "submit_code fs run uuid4 utcnow now sub subs = (Returned body, subs')"
  shows "grade_error_details (grade body) = take 3 (result_error_details r)"
    and "error_details (leaderboard_entry body) = result_error_details r"
  using assms by (auto simp: submit_code_def Let_def split: if_splits)

text \<open>
  Claim C6 at a concrete input. The four tests of \<open>four_tests\<close> all exit with code 1. The
  field \<open>grade\<close> of the response carries the first three messages, and the entry that
  \<open>submit_code\<close> stores in \<open>submissions\<close> and returns as \<open>leaderboard_entry\<close> carries
  four: it takes \<open>result["error_details"]\<close>, the list of at most five, where the entry
  that \<open>grade_submission\<close> builds itself keeps three (lemma \<open>diagnostics_caps\<close>).
\<close>

theorem stored_entry_has_four_diagnostics:
  "submit_code (only_file ''test_cases/sum.json'' four_tests) child_exits_1 ''id-1'' ''t0'' ''t1'' alice_sum [] =
     (Returned
        \<lparr>grade = \<lparr>grade_score = 0, grade_total = 4, grade_replay_result = ''failed'',
                  grade_error_details =
                    [''Test 1: Runtime error - boom'', ''Test 2: Runtime error - boom'',
                     ''Test 3: Runtime error - boom'']\<rparr>,
         leaderboard_entry =
           \<lparr>submission_id = ''id-1'', user_id = ''alice'', problem_id = ''sum'', score = 0,
            replay_result = ''0/4 tests passed'', timestamp = ''t1'',
            error_details =
              [''Test 1: Runtime error - boom'', ''Test 2: Runtime error - boom'',
               ''Test 3: Runtime error - boom'', ''Test 4: Runtime error - boom'']\<rparr>\<rparr>,
      [\<lparr>submission_id = ''id-1'', user_id = ''alice'', problem_id = ''sum'', score = 0,
        replay_result = ''0/4 tests passed'', timestamp = ''t1'',
        error_details =
          [''Test 1: Runtime error - boom'', ''Test 2: Runtime error - boom'',
           ''Test 3: Runtime error - boom'', ''Test 4: Runtime error - boom'']\<rparr>])"
  by (simp add: submit_defs eval_defs four_tests_def child_exits_1_def alice_sum_def)

section \<open>Failures of a test and failures of the runner\<close>

text \<open>
  Claim C7, as the code behaves. A child that exits with a non-zero code appends
  \<open>Test i+1: Runtime error - \<close> followed by the standard error with the whitespace at both
  ends removed, a child that runs out of time appends \<open>Test i+1: Timeout (exceeded 5 seconds)\<close>,
  and in both cases the loop goes on with the next test and an unchanged score. If the
  problem is in the store and every temporary file can be written, a report is returned
  whose total is the number of all tests, whose score plus the number of failed tests is the
  total, and whose verdict is one of the three.
\<close>

theorem per_test_failures_recovered:
  "(run i (make_script code (input c)) = CompletedProcess returncode out err \<and> returncode \<noteq> 0 \<longrightarrow>
      grade_loop run code i (c # cs) (p, errs) =
        grade_loop run code (i + 1) cs
          (p, errs @ [''Test '' @ str_nat (i + 1) @ '': Runtime error - '' @ strip err])) \<and>
   (run i (make_script code (input c)) = TimeoutExpired \<longrightarrow>
      grade_loop run code i (c # cs) (p, errs) =
        grade_loop run code (i + 1) cs
          (p, errs @ [''Test '' @ str_nat (i + 1) @ '': Timeout (exceeded 5 seconds)''])) \<and>
   (fs (grader_path pid) = TestFile data \<and>
    (\<forall>k < length (public_tests data @ hidden_tests data).
       \<not> tempfile_raises (run k (make_script code
            (input ((public_tests data @ hidden_tests data) ! k))))) \<longrightarrow>
      (\<exists>r. grade_submission fs run uuid4 utcnow code pid uid = Inr r \<and>
           result_total r = int (length (public_tests data @ hidden_tests data)) \<and>
           result_score r + int (length (failures run code 0 (public_tests data @ hidden_tests data))) =
             result_total r \<and>
           (result_replay_result r = ''passed'' \<or> result_replay_result r = ''partially'' \<or>
            result_replay_result r = ''failed'')))"
proof (intro conjI impI)
  assume "run i (make_script code (input c)) = CompletedProcess returncode out err \<and> returncode \<noteq> 0"
  then show "grade_loop run code i (c # cs) (p, errs) =
        grade_loop run code (i + 1) cs
          (p, errs @ [''Test '' @ str_nat (i + 1) @ '': Runtime error - '' @ strip err])"
    by (simp add: judge_case_def)
next
  assume "run i (make_script code (input c)) = TimeoutExpired"
  then show "grade_loop run code i (c # cs) (p, errs) =
        grade_loop run code (i + 1) cs
          (p, errs @ [''Test '' @ str_nat (i + 1) @ '': Timeout (exceeded 5 seconds)''])"
    by (simp add: judge_case_def)
next
  let ?tests = "public_tests data @ hidden_tests data"
  assume a: "fs (grader_path pid) = TestFile data \<and>
    (\<forall>k < length ?tests. \<not> tempfile_raises (run k (make_script code (input (?tests ! k)))))"
  then have s: "fs (grader_path pid) = TestFile data" by simp
  from a grade_submission_returns [of fs pid data run uuid4 utcnow code uid]
  obtain r where g: "grade_submission fs run uuid4 utcnow code pid uid = Inr r" by auto
  from grade_submission_Inr [of fs pid data run uuid4 utcnow code uid r] s g
  obtain q es where
    loop: "grade_loop run code 0 ?tests (0, []) = Inr (q, es)"
    and r: "result_score r = q" "result_total r = int (length ?tests)"
      "result_replay_result r =
         (if q = int (length ?tests) then ''passed'' else if q > 0 then ''partially'' else ''failed'')"
    by blast
  from grade_loop_Inr [OF loop]
  have "q + int (length (failures run code 0 ?tests)) = int (length ?tests)" by simp
  with g r show "\<exists>r. grade_submission fs run uuid4 utcnow code pid uid = Inr r \<and>
           result_total r = int (length ?tests) \<and>
           result_score r + int (length (failures run code 0 ?tests)) = result_total r \<and>
           (result_replay_result r = ''passed'' \<or> result_replay_result r = ''partially'' \<or>
            result_replay_result r = ''failed'')"
    by auto
qed

text \<open>
  Witness for C7: one test, with a child that exits with code 1 and with a child that hangs.
\<close>

theorem per_test_failures_recovered_witness:
  "child_exits_1 0 (make_script ''def solve(): pass'' (input sum_case)) =
     CompletedProcess 1 [] ''boom\<newline>'' \<and>
   grade_loop child_exits_1 ''def solve(): pass'' 0 [sum_case] (0, []) =
     Inr (0, [''Test 1: Runtime error - boom'']) \<and>
   child_hangs 0 (make_script ''def solve(): pass'' (input sum_case)) = TimeoutExpired \<and>
   grade_loop child_hangs ''def solve(): pass'' 0 [sum_case] (0, []) =
     Inr (0, [''Test 1: Timeout (exceeded 5 seconds)'']) \<and>
   only_file ''test_cases/sum.json'' one_test (grader_path ''sum'') = TestFile one_test \<and>
   list_all (\<lambda>k. \<not> tempfile_raises (child_hangs k (make_script ''def solve(): pass''
      (input ((public_tests one_test @ hidden_tests one_test) ! k))))) [0..<1] \<and>
   (\<exists>r. grade_submission (only_file ''test_cases/sum.json'' one_test) child_hangs ''id-1'' ''t0'' ''def solve(): pass''
          ''sum'' ''alice'' = Inr r \<and>
        result_total r = 1 \<and> result_score r = 0)"
proof -
  have a: "child_exits_1 0 (make_script ''def solve(): pass'' (input sum_case)) =
     CompletedProcess 1 [] ''boom\<newline>'' \<and> (1::int) \<noteq> 0"
    by (simp add: child_exits_1_def)
  have b: "child_hangs 0 (make_script ''def solve(): pass'' (input sum_case)) = TimeoutExpired"
    by (simp add: child_hangs_def)
  have s: "only_file ''test_cases/sum.json'' one_test (grader_path ''sum'') = TestFile one_test"
    by (simp add: only_file_def grader_path_def)
  have t: "\<forall>k < length (public_tests one_test @ hidden_tests one_test).
      \<not> tempfile_raises (child_hangs k (make_script ''def solve(): pass''
        (input ((public_tests one_test @ hidden_tests one_test) ! k))))"
    by (simp add: child_hangs_def tempfile_raises_def)
  have f: "failures child_hangs ''def solve(): pass'' 0 (public_tests one_test @ hidden_tests one_test) =
      [(0, ''Test 1: Timeout (exceeded 5 seconds)'')]"
    by (simp add: eval_defs one_test_def child_hangs_def)
  from a per_test_failures_recovered [where run = child_exits_1 and i = 0
      and code = "''def solve(): pass''" and c = sum_case and returncode = 1 and out = "[]"
      and err = "''boom\<newline>''" and cs = "[]" and p = 0 and errs = "[]"]
  have 1: "grade_loop child_exits_1 ''def solve(): pass'' 0 [sum_case] (0, []) =
     Inr (0, [''Test 1: Runtime error - boom''])"
    by (simp add: strip_def lstrip_def rstrip_def isspace_def str_nat.simps digit_char_def)
  from b s t per_test_failures_recovered [where run = child_hangs and i = 0
      and code = "''def solve(): pass''" and c = sum_case and cs = "[]" and p = 0 and errs = "[]"
      and fs = "only_file ''test_cases/sum.json'' one_test" and pid = "''sum''" and data = one_test
      and ?uuid4.0 = "''id-1''" and utcnow = "''t0''" and uid = "''alice''"]
  have 2: "grade_loop child_hangs ''def solve(): pass'' 0 [sum_case] (0, []) =
     Inr (0, [''Test 1: Timeout (exceeded 5 seconds)''])"
    and 3: "\<exists>r. grade_submission (only_file ''test_cases/sum.json'' one_test) child_hangs ''id-1'' ''t0''
          ''def solve(): pass'' ''sum'' ''alice'' = Inr r \<and>
        result_total r = int (length (public_tests one_test @ hidden_tests one_test)) \<and>
        result_score r +
          int (length (failures child_hangs ''def solve(): pass'' 0
                         (public_tests one_test @ hidden_tests one_test))) = result_total r \<and>
        (result_replay_result r = ''passed'' \<or> result_replay_result r = ''partially'' \<or>
         result_replay_result r = ''failed'')"
    by (simp_all add: str_nat.simps digit_char_def)
  from 3 f obtain r where r: "grade_submission (only_file ''test_cases/sum.json'' one_test) child_hangs ''id-1'' ''t0''
          ''def solve(): pass'' ''sum'' ''alice'' = Inr r"
    "result_total r = 1" "result_score r = 0"
    by (auto simp: one_test_def)
  then have 4: "\<exists>r. grade_submission (only_file ''test_cases/sum.json'' one_test) child_hangs ''id-1'' ''t0''
          ''def solve(): pass'' ''sum'' ''alice'' = Inr r \<and>
        result_total r = 1 \<and> result_score r = 0"
    by blast
  have t': "list_all (\<lambda>k. \<not> tempfile_raises (child_hangs k (make_script ''def solve(): pass''
      (input ((public_tests one_test @ hidden_tests one_test) ! k))))) [0..<1]"
    by (simp add: child_hangs_def tempfile_raises_def)
  from a b s t' 1 2 4 show ?thesis by blast
qed

text \<open>
  Counterexample to C7 as stated: the standard error \<open>boom\<close> with its final newline gives
  the message \<open>Test 1: Runtime error - boom\<close>, without the newline; and when the temporary
  file cannot be written the problem is in the store and no score is returned.
\<close>

theorem per_test_failures_counterexample:
  "child_exits_1 0 (make_script ''def solve(): pass'' ''1 2'') = CompletedProcess 1 [] ''boom\<newline>'' \<and>
   grade_submission (only_file ''test_cases/sum.json'' one_test) child_exits_1 ''id-1'' ''t0'' ''def solve(): pass''
     ''sum'' ''alice'' =
     Inr \<lparr>result_score = 0, result_total = 1, result_replay_result = ''failed'',
          result_submission_entry =
            \<lparr>submission_id = ''id-1'', user_id = ''alice'', problem_id = ''sum'', score = 0,
             replay_result = ''failed'', timestamp = ''t0'',
             error_details = [''Test 1: Runtime error - boom'']\<rparr>,
          result_error_details = [''Test 1: Runtime error - boom'']\<rparr> \<and>
   ''Test 1: Runtime error - boom'' \<noteq> ''Test 1: Runtime error - '' @ ''boom\<newline>'' \<and>
   grade_submission (only_file ''test_cases/sum.json'' one_test) disk_full ''id-1'' ''t0'' ''def solve(): pass''
     ''sum'' ''alice'' = Inl (Raised ''OSError'' ''No space left on device'')"
  by (simp add: eval_defs one_test_def child_exits_1_def disk_full_def)

lemma grade_loop_first_raise:
  "k < length cs \<Longrightarrow>
   run (i + k) (make_script code (input (cs ! k))) = TempFileRaised e \<Longrightarrow>
   (\<forall>j < k. \<not> tempfile_raises (run (i + j) (make_script code (input (cs ! j))))) \<Longrightarrow>
   grade_loop run code i cs (p, errs) = Inl e"
proof (induction cs arbitrary: i k p errs)
  case Nil
  then show ?case by simp
next
  case (Cons c cs)
  show ?case
  proof (cases k)
    case 0
    with Cons.prems show ?thesis by (simp add: judge_case_def)
  next
    case (Suc k')
    with Cons.prems have k': "k' < length cs"
      and r: "run (i + 1 + k') (make_script code (input (cs ! k'))) = TempFileRaised e"
      by simp_all
    have later: "\<forall>j < k'. \<not> tempfile_raises (run (i + 1 + j) (make_script code (input (cs ! j))))"
    proof (intro allI impI)
      fix j assume "j < k'"
      with Suc have "Suc j < k" by simp
      with Cons.prems(3)
      have "\<not> tempfile_raises (run (i + Suc j) (make_script code (input ((c # cs) ! Suc j))))"
        by blast
      then show "\<not> tempfile_raises (run (i + 1 + j) (make_script code (input (cs ! j))))"
        by simp
    qed
    from Suc Cons.prems(3)
    have "\<not> tempfile_raises (run (i + 0) (make_script code (input ((c # cs) ! 0))))"
      by blast
    then have "\<not> tempfile_raises (run i (make_script code (input c)))" by simp
    with judge_case_Inl [of run code i c] have "\<forall>e'. judge_case run code i c \<noteq> Inl e'" by blast
    then obtain v where v: "judge_case run code i c = Inr v"
      by (cases "judge_case run code i c") auto
    show ?thesis
    proof (cases v)
      case None
      with v Cons.IH [OF k' r later, of "p + 1" errs] show ?thesis by simp
    next
      case (Some msg)
      with v Cons.IH [OF k' r later, of p "errs @ [msg]"] show ?thesis by simp
    qed
  qed
qed

text \<open>
  Claim C8, as the code behaves. When the temporary file of a test cannot be written, the
  exception leaves the loop at that test: \<open>grade_submission\<close> raises it at the first such
  test and returns no report, and \<open>submit_code\<close> answers 500 with \<open>Grading failed: \<close> and
  the message of the exception, leaving the leaderboard as it is. When \<open>subprocess.run\<close>
  raises, for example because the child cannot be spawned, the handler of line 65 appends
  \<open>Test i+1: Execution error - \<close> and the message, and the loop goes on with an unchanged
  score: the test counts as failed.
\<close>

theorem runner_failures:
  "(run i (make_script code (input c)) = TempFileRaised e \<longrightarrow>
      grade_loop run code i (c # cs) (p, errs) = Inl e) \<and>
   (run i (make_script code (input c)) = RunRaised m \<longrightarrow>
      grade_loop run code i (c # cs) (p, errs) =
        grade_loop run code (i + 1) cs
          (p, errs @ [''Test '' @ str_nat (i + 1) @ '': Execution error - '' @ m])) \<and>
   (fs (grader_path (sub_problem_id sub)) = TestFile data \<and>
    k < length (public_tests data @ hidden_tests data) \<and>
    run k (make_script (sub_code sub) (input ((public_tests data @ hidden_tests data) ! k))) =
      TempFileRaised e \<and>
    (\<forall>j < k. \<not> tempfile_raises (run j (make_script (sub_code sub)
                 (input ((public_tests data @ hidden_tests data) ! j))))) \<longrightarrow>
      grade_submission fs run uuid4 utcnow (sub_code sub) (sub_problem_id sub) (sub_user_id sub) =
        Inl e) \<and>
   (path_exists (fs (server_path (sub_problem_id sub))) \<and>
    grade_submission fs run uuid4 utcnow (sub_code sub) (sub_problem_id sub) (sub_user_id sub) =
      Inl e \<longrightarrow>
      submit_code fs run uuid4 utcnow now sub subs =
        (HTTPException 500 (''Grading failed: '' @ str_error e), subs))"
proof (intro conjI impI)
  assume "run i (make_script code (input c)) = TempFileRaised e"
  then show "grade_loop run code i (c # cs) (p, errs) = Inl e"
    by (simp add: judge_case_def)
next
  assume "run i (make_script code (input c)) = RunRaised m"
  then show "grade_loop run code i (c # cs) (p, errs) =
        grade_loop run code (i + 1) cs
          (p, errs @ [''Test '' @ str_nat (i + 1) @ '': Execution error - '' @ m])"
    by (simp add: judge_case_def)
next
  let ?tests = "public_tests data @ hidden_tests data"
  assume a: "fs (grader_path (sub_problem_id sub)) = TestFile data \<and>
    k < length ?tests \<and>
    run k (make_script (sub_code sub) (input (?tests ! k))) = TempFileRaised e \<and>
    (\<forall>j < k. \<not> tempfile_raises (run j (make_script (sub_code sub) (input (?tests ! j)))))"
  then have "grade_loop run (sub_code sub) 0 ?tests (0, []) = Inl e"
    using grade_loop_first_raise [of k ?tests run 0 "sub_code sub" e 0 "[]"] by simp
  with a show "grade_submission fs run uuid4 utcnow (sub_code sub) (sub_problem_id sub)
      (sub_user_id sub) = Inl e"
    by (simp add: grade_submission_def)
next
  assume "path_exists (fs (server_path (sub_problem_id sub))) \<and>
    grade_submission fs run uuid4 utcnow (sub_code sub) (sub_problem_id sub) (sub_user_id sub) =
      Inl e"
  then show "submit_code fs run uuid4 utcnow now sub subs =
        (HTTPException 500 (''Grading failed: '' @ str_error e), subs)"
    by (simp add: submit_code_500)
qed

text \<open>
  Witness for C8: one test, with a disk that is full and with an interpreter that is missing.
\<close>

theorem runner_failures_witness:
  "disk_full 0 (make_script ''def solve(): pass'' (input sum_case)) =
     TempFileRaised (Raised ''OSError'' ''No space left on device'') \<and>
   grade_loop disk_full ''def solve(): pass'' 0 [sum_case] (0, []) =
     Inl (Raised ''OSError'' ''No space left on device'') \<and>
   spawn_fails 0 (make_script ''def solve(): pass'' (input sum_case)) =
     RunRaised ''No such file or directory'' \<and>
   grade_loop spawn_fails ''def solve(): pass'' 0 [sum_case] (0, []) =
     Inr (0, [''Test 1: Execution error - No such file or directory'']) \<and>
   only_file ''test_cases/sum.json'' one_test (grader_path (sub_problem_id alice_sum)) =
     TestFile one_test \<and>
   path_exists (only_file ''test_cases/sum.json'' one_test (server_path (sub_problem_id alice_sum))) \<and>
   grade_submission (only_file ''test_cases/sum.json'' one_test) disk_full ''id-1'' ''t0''
     (sub_code alice_sum) (sub_problem_id alice_sum) (sub_user_id alice_sum) =
     Inl (Raised ''OSError'' ''No space left on device'') \<and>
   submit_code (only_file ''test_cases/sum.json'' one_test) disk_full ''id-1'' ''t0'' ''t1''
     alice_sum [] = (HTTPException 500 ''Grading failed: No space left on device'', [])"
proof -
  let ?fs = "only_file ''test_cases/sum.json'' one_test"
  let ?e = "Raised ''OSError'' ''No space left on device''"
  have a: "disk_full 0 (make_script ''def solve(): pass'' (input sum_case)) = TempFileRaised ?e"
    by (simp add: disk_full_def)
  have b: "spawn_fails 0 (make_script ''def solve(): pass'' (input sum_case)) =
     RunRaised ''No such file or directory''"
    by (simp add: spawn_fails_def)
  have s: "?fs (grader_path (sub_problem_id alice_sum)) = TestFile one_test"
    by (simp add: only_file_def grader_path_def alice_sum_def)
  have x: "path_exists (?fs (server_path (sub_problem_id alice_sum)))"
    by (simp add: only_file_def server_path_def path_join_def absolute_def alice_sum_def)
  have h: "?fs (grader_path (sub_problem_id alice_sum)) = TestFile one_test \<and>
      0 < length (public_tests one_test @ hidden_tests one_test) \<and>
      disk_full 0 (make_script (sub_code alice_sum)
        (input ((public_tests one_test @ hidden_tests one_test) ! 0))) = TempFileRaised ?e \<and>
      (\<forall>j < 0. \<not> tempfile_raises (disk_full j (make_script (sub_code alice_sum)
         (input ((public_tests one_test @ hidden_tests one_test) ! j)))))"
    using s by (simp add: disk_full_def one_test_def)
  note th = runner_failures [where run = disk_full and i = 0 and code = "''def solve(): pass''"
      and c = sum_case and e = ?e and cs = "[]" and p = 0
      and errs = "[]" and fs = ?fs and sub = alice_sum and k = 0
      and data = one_test and ?uuid4.0 = "''id-1''" and utcnow = "''t0''" and now = "''t1''"
      and subs = "[]"]
  from a th
  have 1: "grade_loop disk_full ''def solve(): pass'' 0 [sum_case] (0, []) = Inl ?e"
    by blast
  from h th
  have g: "grade_submission ?fs disk_full ''id-1'' ''t0''
     (sub_code alice_sum) (sub_problem_id alice_sum) (sub_user_id alice_sum) = Inl ?e"
    by blast
  from x g th
  have "submit_code ?fs disk_full ''id-1'' ''t0'' ''t1'' alice_sum [] =
     (HTTPException 500 (''Grading failed: '' @ str_error ?e), [])"
    by blast
  then have 2: "submit_code ?fs disk_full ''id-1'' ''t0'' ''t1'' alice_sum [] =
     (HTTPException 500 ''Grading failed: No space left on device'', [])"
    by simp
  from b runner_failures [where run = spawn_fails and i = 0 and code = "''def solve(): pass''"
      and c = sum_case and m = "''No such file or directory''" and cs = "[]" and p = 0
      and errs = "[]"]
  have 3: "grade_loop spawn_fails ''def solve(): pass'' 0 [sum_case] (0, []) =
     Inr (0, [''Test 1: Execution error - No such file or directory''])"
    by (simp add: str_nat.simps digit_char_def)
  from a b s x g 1 2 3 show ?thesis by blast
qed

text \<open>
  Counterexample to C8 as stated: the child cannot be spawned, and the submission is graded
  0 of 1 with the verdict \<open>failed\<close> and entered in the leaderboard; no error is raised.
\<close>

theorem runner_failures_counterexample:
  "spawn_fails 0 (make_script ''def solve(): pass'' ''1 2'') = RunRaised ''No such file or directory'' \<and>
   submit_code (only_file ''test_cases/sum.json'' one_test) spawn_fails ''id-1'' ''t0'' ''t1'' alice_sum [] =
     (Returned
        \<lparr>grade = \<lparr>grade_score = 0, grade_total = 1, grade_replay_result = ''failed'',
                  grade_error_details = [''Test 1: Execution error - No such file or directory'']\<rparr>,
         leaderboard_entry =
           \<lparr>submission_id = ''id-1'', user_id = ''alice'', problem_id = ''sum'', score = 0,
            replay_result = ''0/1 tests passed'', timestamp = ''t1'',
            error_details = [''Test 1: Execution error - No such file or directory'']\<rparr>\<rparr>,
      [\<lparr>submission_id = ''id-1'', user_id = ''alice'', problem_id = ''sum'', score = 0,
        replay_result = ''0/1 tests passed'', timestamp = ''t1'',
        error_details = [''Test 1: Execution error - No such file or directory'']\<rparr>])"
  by (simp add: submit_defs eval_defs one_test_def spawn_fails_def alice_sum_def)

section \<open>Recording an entry in the leaderboard\<close>

lemma find_existing_absent:
  "(uid, pid) \<notin> entry_pair ` set es \<Longrightarrow> find_existing uid pid i es = None"
  by (induction es arbitrary: i) (auto simp: entry_pair_def)

lemma find_existing_first:
  "(uid, pid) \<notin> entry_pair ` set xs \<Longrightarrow> entry_pair y = (uid, pid) \<Longrightarrow>
     find_existing uid pid i (xs @ y # ys) = Some (i + length xs)"
  by (induction xs arbitrary: i) (auto simp: entry_pair_def)

lemma update_leaderboard_absent:
  "entry_pair e \<notin> entry_pair ` set subs \<Longrightarrow> update_leaderboard e subs = subs @ [e]"
  using find_existing_absent [of "user_id e" "problem_id e" subs 0]
  by (simp add: update_leaderboard_def entry_pair_def)

lemma update_leaderboard_present:
  assumes "entry_pair e \<notin> entry_pair ` set xs" and "entry_pair y = entry_pair e"
  shows "update_leaderboard e (xs @ y # ys) =
           (if score y < score e then xs @ e # ys else xs @ y # ys)"
proof -
  from assms have "find_existing (user_id e) (problem_id e) 0 (xs @ y # ys) = Some (0 + length xs)"
    by (intro find_existing_first) (simp_all add: entry_pair_def)
  then show ?thesis
    by (simp add: update_leaderboard_def)
qed

lemma distinct_pairs_split:
  assumes "distinct (map entry_pair subs)" and "x \<in> set subs"
  obtains xs ys where "subs = xs @ x # ys" and "entry_pair x \<notin> entry_pair ` set xs"
proof -
  from assms(2) obtain xs ys where s: "subs = xs @ x # ys"
    by (auto simp: in_set_conv_decomp)
  with assms(1) have "entry_pair x \<notin> entry_pair ` set xs" by auto
  with s show ?thesis by (rule that)
qed

lemma submit_code_records:
  assumes "submit_code fs run uuid4 utcnow now sub subs = (Returned body, subs')"
  shows "subs' = update_leaderboard (leaderboard_entry body) subs"
    and "timestamp (leaderboard_entry body) = now"
    and "entry_pair (leaderboard_entry body) = (sub_user_id sub, sub_problem_id sub)"
  using assms by (auto simp: submit_code_def Let_def entry_pair_def split: sum.splits if_splits)

text \<open>
  Claim C3: the update of lines 262 to 277 keeps the entries of the list pairwise distinct
  in their pair (user, problem). An entry for a new pair is appended; an entry whose pair is
  present with a strictly lower score replaces the old entry at its index, as it is, with
  its own timestamp; an entry whose pair is present with an equal or higher score changes
  nothing. After the scores 3, 5 and 2 of one pair that was absent, the list is the old
  list followed by the entry of score 5.
\<close>

theorem leaderboard_record_rule:
  assumes "distinct (map entry_pair subs)"
  shows "distinct (map entry_pair (update_leaderboard e subs)) \<and>
         (entry_pair e \<notin> entry_pair ` set subs \<longrightarrow> update_leaderboard e subs = subs @ [e]) \<and>
         (\<forall>x \<in> set subs. entry_pair x = entry_pair e \<and> score x < score e \<longrightarrow>
            (\<exists>j < length subs. subs ! j = x \<and> update_leaderboard e subs = subs[j := e])) \<and>
         (\<forall>x \<in> set subs. entry_pair x = entry_pair e \<and> score e \<le> score x \<longrightarrow>
            update_leaderboard e subs = subs) \<and>
         (entry_pair e \<notin> entry_pair ` set subs \<and> entry_pair e2 = entry_pair e \<and>
          entry_pair e3 = entry_pair e \<and> score e = 3 \<and> score e2 = 5 \<and> score e3 = 2 \<longrightarrow>
            update_leaderboard e3 (update_leaderboard e2 (update_leaderboard e subs)) = subs @ [e2])"
proof (intro conjI impI ballI)
  show "distinct (map entry_pair (update_leaderboard e subs))"
  proof (cases "entry_pair e \<in> entry_pair ` set subs")
    case False
    with assms show ?thesis by (simp add: update_leaderboard_absent)
  next
    case True
    then obtain x where x: "x \<in> set subs" "entry_pair x = entry_pair e" by auto
    from distinct_pairs_split [OF assms x(1)] obtain xs ys where
      s: "subs = xs @ x # ys" and n: "entry_pair x \<notin> entry_pair ` set xs" by blast
    from n x(2) have "entry_pair e \<notin> entry_pair ` set xs" by simp
    from update_leaderboard_present [OF this x(2), of ys] s
    have "map entry_pair (update_leaderboard e subs) = map entry_pair subs"
      using x(2) by simp
    with assms show ?thesis by simp
  qed
next
  assume "entry_pair e \<notin> entry_pair ` set subs"
  then show "update_leaderboard e subs = subs @ [e]" by (rule update_leaderboard_absent)
next
  fix x assume x: "x \<in> set subs" and h: "entry_pair x = entry_pair e \<and> score x < score e"
  from distinct_pairs_split [OF assms x] obtain xs ys where
    s: "subs = xs @ x # ys" and n: "entry_pair x \<notin> entry_pair ` set xs" by blast
  from n h have "entry_pair e \<notin> entry_pair ` set xs" by simp
  from update_leaderboard_present [OF this, of x ys] h s
  have "update_leaderboard e subs = xs @ e # ys" by simp
  with s have "length xs < length subs \<and> subs ! length xs = x \<and>
      update_leaderboard e subs = subs[length xs := e]" by simp
  then show "\<exists>j < length subs. subs ! j = x \<and> update_leaderboard e subs = subs[j := e]" by blast
next
  fix x assume x: "x \<in> set subs" and h: "entry_pair x = entry_pair e \<and> score e \<le> score x"
  from distinct_pairs_split [OF assms x] obtain xs ys where
    s: "subs = xs @ x # ys" and n: "entry_pair x \<notin> entry_pair ` set xs" by blast
  from n h have "entry_pair e \<notin> entry_pair ` set xs" by simp
  from update_leaderboard_present [OF this, of x ys] h s
  show "update_leaderboard e subs = subs" by simp
next
  assume h: "entry_pair e \<notin> entry_pair ` set subs \<and> entry_pair e2 = entry_pair e \<and>
          entry_pair e3 = entry_pair e \<and> score e = 3 \<and> score e2 = 5 \<and> score e3 = 2"
  then have 1: "update_leaderboard e subs = subs @ [e]" by (simp add: update_leaderboard_absent)
  from h have n2: "entry_pair e2 \<notin> entry_pair ` set subs" and n3: "entry_pair e3 \<notin> entry_pair ` set subs"
    by simp_all
  from update_leaderboard_present [OF n2, of e "[]"] h
  have 2: "update_leaderboard e2 (subs @ [e]) = subs @ [e2]" by simp
  from update_leaderboard_present [OF n3, of e2 "[]"] h
  have 3: "update_leaderboard e3 (subs @ [e2]) = subs @ [e2]" by simp
  from 1 2 3 show "update_leaderboard e3 (update_leaderboard e2 (update_leaderboard e subs)) = subs @ [e2]"
    by simp
qed

text \<open>
  Witness for C3: user \<open>u1\<close> submits to \<open>p1\<close> with the scores 3, 5 and 2 on an empty list.
\<close>

theorem leaderboard_record_rule_witness:
  "distinct (map entry_pair []) \<and>
   update_leaderboard (ranked ''s1'' ''u1'' ''p1'' 3 ''2024-01-01T00:00:01'') [] =
     [ranked ''s1'' ''u1'' ''p1'' 3 ''2024-01-01T00:00:01''] \<and>
   distinct (map entry_pair [ranked ''s1'' ''u1'' ''p1'' 3 ''2024-01-01T00:00:01'']) \<and>
   update_leaderboard (ranked ''s2'' ''u1'' ''p1'' 5 ''2024-01-01T00:00:02'')
     [ranked ''s1'' ''u1'' ''p1'' 3 ''2024-01-01T00:00:01''] =
     [ranked ''s2'' ''u1'' ''p1'' 5 ''2024-01-01T00:00:02''] \<and>
   distinct (map entry_pair [ranked ''s2'' ''u1'' ''p1'' 5 ''2024-01-01T00:00:02'']) \<and>
   update_leaderboard (ranked ''s3'' ''u1'' ''p1'' 2 ''2024-01-01T00:00:03'')
     [ranked ''s2'' ''u1'' ''p1'' 5 ''2024-01-01T00:00:02''] =
     [ranked ''s2'' ''u1'' ''p1'' 5 ''2024-01-01T00:00:02''] \<and>
   update_leaderboard (ranked ''s3'' ''u1'' ''p1'' 2 ''2024-01-01T00:00:03'')
     (update_leaderboard (ranked ''s2'' ''u1'' ''p1'' 5 ''2024-01-01T00:00:02'')
       (update_leaderboard (ranked ''s1'' ''u1'' ''p1'' 3 ''2024-01-01T00:00:01'') [])) =
     [] @ [ranked ''s2'' ''u1'' ''p1'' 5 ''2024-01-01T00:00:02''] \<and>
   timestamp (ranked ''s2'' ''u1'' ''p1'' 5 ''2024-01-01T00:00:02'') = ''2024-01-01T00:00:02''"
proof -
  let ?a = "ranked ''s1'' ''u1'' ''p1'' 3 ''2024-01-01T00:00:01''"
  let ?b = "ranked ''s2'' ''u1'' ''p1'' 5 ''2024-01-01T00:00:02''"
  let ?c = "ranked ''s3'' ''u1'' ''p1'' 2 ''2024-01-01T00:00:03''"
  have d0: "distinct (map entry_pair [])" by simp
  have d1: "distinct (map entry_pair [?a])" by simp
  have d2: "distinct (map entry_pair [?b])" by simp
  have h0: "entry_pair ?a \<notin> entry_pair ` set []" by simp
  have h4: "entry_pair ?a \<notin> entry_pair ` set [] \<and> entry_pair ?b = entry_pair ?a \<and>
      entry_pair ?c = entry_pair ?a \<and> score ?a = 3 \<and> score ?b = 5 \<and> score ?c = 2"
    by (simp add: ranked_def entry_pair_def)
  have h2: "?a \<in> set [?a] \<and> entry_pair ?a = entry_pair ?b \<and> score ?a < score ?b"
    by (simp add: ranked_def entry_pair_def)
  have h3: "?b \<in> set [?b] \<and> entry_pair ?b = entry_pair ?c \<and> score ?c \<le> score ?b"
    by (simp add: ranked_def entry_pair_def)
  from h0 leaderboard_record_rule [OF d0, of ?a ?b ?c]
  have 1: "update_leaderboard ?a [] = [?a]"
    by simp
  from h4 leaderboard_record_rule [OF d0, of ?a ?b ?c]
  have 4: "update_leaderboard ?c (update_leaderboard ?b (update_leaderboard ?a [])) = [] @ [?b]"
    by blast
  from h2 leaderboard_record_rule [OF d1, of ?b]
  have "\<exists>j < length [?a]. [?a] ! j = ?a \<and> update_leaderboard ?b [?a] = [?a][j := ?b]"
    by blast
  then have 2: "update_leaderboard ?b [?a] = [?b]"
    by auto
  from h3 leaderboard_record_rule [OF d2, of ?c]
  have 3: "update_leaderboard ?c [?b] = [?b]"
    by blast
  have 5: "timestamp ?b = ''2024-01-01T00:00:02''" by (simp add: ranked_def)
  from d0 d1 d2 1 2 3 4 5 show ?thesis by blast
qed

section \<open>The order of the leaderboard\<close>

lemma row_key_le:
  "(row_key a \<le> row_key b) =
     (row_score b < row_score a \<or> (row_score a = row_score b \<and> row_timestamp a \<le> row_timestamp b))"
  by (auto simp: row_key_def less_eq_prod_def)

lemma map_of_add_to_problems:
  "map_of (add_to_problems e gs) =
     (map_of gs)(problem_id e \<mapsto>
        (case map_of gs (problem_id e) of None \<Rightarrow> [e] | Some es \<Rightarrow> es @ [e]))"
  by (induction e gs rule: add_to_problems.induct) (auto simp: fun_eq_iff)

lemma fst_add_to_problems:
  "map fst (add_to_problems e gs) =
     (if problem_id e \<in> fst ` set gs then map fst gs else map fst gs @ [problem_id e])"
  by (induction e gs rule: add_to_problems.induct) auto

lemma group_by_problem_snoc:
  "group_by_problem (subs @ [e]) = add_to_problems e (group_by_problem subs)"
  by (simp add: group_by_problem_def)

lemma group_by_problem_inv:
  "distinct (map fst (group_by_problem subs)) \<and>
   map_of (group_by_problem subs) =
     (\<lambda>pid. if pid \<in> problem_id ` set subs
            then Some (filter (\<lambda>e. problem_id e = pid) subs) else None)"
proof (induction subs rule: rev_induct)
  case Nil
  show ?case by (simp add: group_by_problem_def)
next
  case (snoc e subs)
  let ?gs = "group_by_problem subs"
  from snoc have d: "distinct (map fst ?gs)"
    and m: "map_of ?gs = (\<lambda>pid. if pid \<in> problem_id ` set subs
            then Some (filter (\<lambda>e. problem_id e = pid) subs) else None)"
    by simp_all
  have "distinct (map fst (add_to_problems e ?gs))"
    using d by (simp add: fst_add_to_problems)
  moreover have "map_of (add_to_problems e ?gs) =
     (\<lambda>pid. if pid \<in> problem_id ` set (subs @ [e])
            then Some (filter (\<lambda>e. problem_id e = pid) (subs @ [e])) else None)"
    unfolding map_of_add_to_problems m by (auto simp: fun_eq_iff filter_empty_conv image_iff)
  ultimately show ?case by (simp add: group_by_problem_snoc)
qed

lemma group_by_problem_member:
  "((pid, es) \<in> set (group_by_problem subs)) =
     (pid \<in> problem_id ` set subs \<and> es = filter (\<lambda>e. problem_id e = pid) subs)"
proof -
  from group_by_problem_inv [of subs]
  have d: "distinct (map fst (group_by_problem subs))"
    and m: "map_of (group_by_problem subs) pid =
      (if pid \<in> problem_id ` set subs
       then Some (filter (\<lambda>e. problem_id e = pid) subs) else None)"
    by simp_all
  from d have "((pid, es) \<in> set (group_by_problem subs)) = (map_of (group_by_problem subs) pid = Some es)"
    by simp
  with m show ?thesis by auto
qed

lemma best_per_user_users:
  "row_user_id ` set (best_per_user pid es seen) = user_id ` set es - seen"
  by (induction es arbitrary: seen) auto

lemma best_per_user_distinct:
  "distinct (map row_user_id (best_per_user pid es seen))"
proof (induction es arbitrary: seen)
  case Nil
  show ?case by simp
next
  case (Cons e es)
  have "user_id e \<notin> row_user_id ` set (best_per_user pid es (insert (user_id e) seen))"
    by (simp add: best_per_user_users)
  with Cons show ?case by auto
qed

lemma best_per_user_problem:
  "r \<in> set (best_per_user pid es seen) \<Longrightarrow> row_problem_id r = pid"
  by (induction es arbitrary: seen) (auto split: if_splits)

lemma best_per_user_first:
  "r \<in> set (best_per_user pid es seen) \<Longrightarrow>
     \<exists>xs e ys. es = xs @ e # ys \<and> user_id e \<notin> user_id ` set xs \<and> user_id e \<notin> seen \<and>
        r = (row_of e)\<lparr>row_problem_id := pid\<rparr>"
proof (induction es arbitrary: seen)
  case Nil
  then show ?case by simp
next
  case (Cons a es)
  show ?case
  proof (cases "user_id a \<notin> seen \<and> r = (row_of a)\<lparr>row_problem_id := pid\<rparr>")
    case True
    then have "a # es = [] @ a # es \<and> user_id a \<notin> user_id ` set [] \<and> user_id a \<notin> seen \<and>
        r = (row_of a)\<lparr>row_problem_id := pid\<rparr>" by simp
    then show ?thesis by blast
  next
    case False
    with Cons.prems
    have "\<exists>seen'. seen \<subseteq> seen' \<and> (user_id a \<in> seen') \<and> r \<in> set (best_per_user pid es seen')"
      by (auto simp: row_of_def split: if_splits)
    then obtain seen' where s: "seen \<subseteq> seen'" "user_id a \<in> seen'"
      and r: "r \<in> set (best_per_user pid es seen')" by blast
    from Cons.IH [OF r] obtain xs e ys where
      "es = xs @ e # ys" "user_id e \<notin> user_id ` set xs" "user_id e \<notin> seen'"
      "r = (row_of e)\<lparr>row_problem_id := pid\<rparr>" by blast
    with s have "a # es = (a # xs) @ e # ys \<and> user_id e \<notin> user_id ` set (a # xs) \<and>
        user_id e \<notin> seen \<and> r = (row_of e)\<lparr>row_problem_id := pid\<rparr>"
      by auto
    then show ?thesis by blast
  qed
qed

lemma entry_key_le:
  "(entry_key a \<le> entry_key b) =
     (score b < score a \<or> (score a = score b \<and> timestamp a \<le> timestamp b))"
  by (auto simp: entry_key_def less_eq_prod_def)

text \<open>The rows of one problem: the first entry of each user in the sorted list is a best one.\<close>

lemma best_of_sorted:
  assumes "r \<in> set (best_per_user pid (sort_key entry_key es) {})"
  shows "\<exists>e \<in> set es. r = (row_of e)\<lparr>row_problem_id := pid\<rparr> \<and>
           (\<forall>e' \<in> set es. user_id e' = user_id e \<longrightarrow> entry_key e \<le> entry_key e')"
proof -
  from best_per_user_first [OF assms] obtain xs e ys where
    s: "sort_key entry_key es = xs @ e # ys" and n: "user_id e \<notin> user_id ` set xs"
    and r: "r = (row_of e)\<lparr>row_problem_id := pid\<rparr>" by blast
  have "sorted (map entry_key (sort_key entry_key es))" by (rule sorted_sort_key)
  with s have later: "\<forall>y \<in> set ys. entry_key e \<le> entry_key y"
    by (simp add: sorted_append)
  have set: "set es = set xs \<union> {e} \<union> set ys"
    using s set_sort [of entry_key es] by auto
  have "\<forall>e' \<in> set es. user_id e' = user_id e \<longrightarrow> entry_key e \<le> entry_key e'"
  proof (intro ballI impI)
    fix e' assume "e' \<in> set es" and "user_id e' = user_id e"
    then have "e' \<notin> set xs" using n by (auto simp: image_iff)
    with \<open>e' \<in> set es\<close> set have "e' = e \<or> e' \<in> set ys" by auto
    with later show "entry_key e \<le> entry_key e'" by auto
  qed
  with set r show ?thesis by blast
qed


lemma get_leaderboard_rows:
  "get_leaderboard subs =
     sort_key row_key
       (concat (map (\<lambda>(pid, entries). best_per_user pid (sort_key entry_key entries) {})
                    (group_by_problem subs)))"
  by (simp add: get_leaderboard_def group_by_problem_def)

lemma set_get_leaderboard:
  "(r \<in> set (get_leaderboard subs)) =
     (\<exists>pid \<in> problem_id ` set subs.
        r \<in> set (best_per_user pid
                   (sort_key entry_key (filter (\<lambda>e. problem_id e = pid) subs)) {}))"
proof -
  have "(r \<in> set (get_leaderboard subs)) =
      (\<exists>(pid, es) \<in> set (group_by_problem subs).
         r \<in> set (best_per_user pid (sort_key entry_key es) {}))"
    by (auto simp: get_leaderboard_rows)
  also have "\<dots> = (\<exists>pid \<in> problem_id ` set subs.
        r \<in> set (best_per_user pid
                   (sort_key entry_key (filter (\<lambda>e. problem_id e = pid) subs)) {}))"
    (is "?L = ?R")
  proof
    assume ?L
    then obtain pid es where m: "(pid, es) \<in> set (group_by_problem subs)"
      and r: "r \<in> set (best_per_user pid (sort_key entry_key es) {})" by auto
    from m have "pid \<in> problem_id ` set subs" and "es = filter (\<lambda>e. problem_id e = pid) subs"
      by (simp_all add: group_by_problem_member)
    with r show ?R by auto
  next
    assume ?R
    then obtain pid where p: "pid \<in> problem_id ` set subs"
      and r: "r \<in> set (best_per_user pid
                   (sort_key entry_key (filter (\<lambda>e. problem_id e = pid) subs)) {})" by auto
    from p have "(pid, filter (\<lambda>e. problem_id e = pid) subs) \<in> set (group_by_problem subs)"
      by (simp add: group_by_problem_member)
    with r show ?L by (rule_tac x = "(pid, filter (\<lambda>e. problem_id e = pid) subs)" in bexI) simp_all
  qed
  finally show ?thesis .
qed

lemma leaderboard_row_is_best:
  assumes "r \<in> set (get_leaderboard subs)"
  shows "\<exists>e \<in> set subs. r = row_of e \<and>
           (\<forall>e' \<in> set subs. entry_pair e' = entry_pair e \<longrightarrow>
              score e' < score e \<or> (score e = score e' \<and> timestamp e \<le> timestamp e'))"
proof -
  from assms set_get_leaderboard [of r subs] obtain pid where
    r: "r \<in> set (best_per_user pid
                   (sort_key entry_key (filter (\<lambda>e. problem_id e = pid) subs)) {})"
    by blast
  let ?es = "filter (\<lambda>e. problem_id e = pid) subs"
  from best_of_sorted [OF r] obtain e where
    e: "e \<in> set ?es" "r = (row_of e)\<lparr>row_problem_id := pid\<rparr>"
    and best: "\<forall>e' \<in> set ?es. user_id e' = user_id e \<longrightarrow> entry_key e \<le> entry_key e'"
    by blast
  from e have "e \<in> set subs" and p: "problem_id e = pid" by simp_all
  with e have "r = row_of e" by (simp add: row_of_def)
  moreover have "\<forall>e' \<in> set subs. entry_pair e' = entry_pair e \<longrightarrow>
      score e' < score e \<or> (score e = score e' \<and> timestamp e \<le> timestamp e')"
  proof (intro ballI impI)
    fix e' assume "e' \<in> set subs" and "entry_pair e' = entry_pair e"
    with p have "e' \<in> set ?es" "user_id e' = user_id e" by (simp_all add: entry_pair_def)
    with best have "entry_key e \<le> entry_key e'" by blast
    then show "score e' < score e \<or> (score e = score e' \<and> timestamp e \<le> timestamp e')"
      by (simp add: entry_key_le)
  qed
  ultimately show ?thesis using \<open>e \<in> set subs\<close> by blast
qed

lemma leaderboard_pairs:
  "row_pair ` set (get_leaderboard subs) = entry_pair ` set subs"
proof (intro set_eqI iffI)
  fix x assume "x \<in> row_pair ` set (get_leaderboard subs)"
  then obtain r where r: "r \<in> set (get_leaderboard subs)" "x = row_pair r" by blast
  from leaderboard_row_is_best [OF r(1)] obtain e where "e \<in> set subs" "r = row_of e" by blast
  with r show "x \<in> entry_pair ` set subs"
    by (auto simp: row_pair_def row_of_def entry_pair_def image_iff)
next
  fix x assume "x \<in> entry_pair ` set subs"
  then obtain e where e: "e \<in> set subs" "x = entry_pair e" by blast
  let ?pid = "problem_id e"
  let ?es = "filter (\<lambda>a. problem_id a = ?pid) subs"
  let ?rows = "best_per_user ?pid (sort_key entry_key ?es) {}"
  from e have "user_id e \<in> user_id ` set (sort_key entry_key ?es) - {}" by simp
  then have "user_id e \<in> row_user_id ` set ?rows"
    by (simp only: best_per_user_users)
  then obtain r where r: "r \<in> set ?rows" "row_user_id r = user_id e" by auto
  from best_per_user_problem [OF r(1)] r(2) e have "x = row_pair r"
    by (simp add: row_pair_def entry_pair_def)
  moreover from r(1) e(1) have "r \<in> set (get_leaderboard subs)"
    unfolding set_get_leaderboard by blast
  ultimately show "x \<in> row_pair ` set (get_leaderboard subs)" by blast
qed

lemma best_per_user_distinct_pairs:
  "distinct (map row_pair (best_per_user pid es seen))"
proof -
  let ?rows = "best_per_user pid es seen"
  from best_per_user_distinct [of pid es seen]
  have d: "distinct ?rows" and i: "inj_on row_user_id (set ?rows)"
    by (simp_all add: distinct_map)
  have "inj_on row_pair (set ?rows)"
  proof (rule inj_onI)
    fix a b assume "a \<in> set ?rows" "b \<in> set ?rows" "row_pair a = row_pair b"
    then have "row_user_id a = row_user_id b" by (simp add: row_pair_def)
    with i \<open>a \<in> set ?rows\<close> \<open>b \<in> set ?rows\<close> show "a = b" by (simp add: inj_on_def)
  qed
  with d show ?thesis by (simp add: distinct_map)
qed

lemma distinct_group_rows:
  "distinct (map fst gs) \<Longrightarrow>
     distinct (map row_pair
       (concat (map (\<lambda>(pid, entries). best_per_user pid (sort_key entry_key entries) {}) gs)))"
proof (induction gs)
  case Nil
  show ?case by simp
next
  case (Cons g gs)
  obtain pid es where g: "g = (pid, es)" by (cases g)
  let ?here = "best_per_user pid (sort_key entry_key es) {}"
  let ?rest = "concat (map (\<lambda>(pid, entries). best_per_user pid (sort_key entry_key entries) {}) gs)"
  from Cons g have d: "distinct (map row_pair ?rest)" and n: "pid \<notin> fst ` set gs" by simp_all
  have rest: "row_problem_id r' \<in> fst ` set gs" if "r' \<in> set ?rest" for r'
  proof -
    from that obtain q qs where m: "(q, qs) \<in> set gs"
      and r': "r' \<in> set (best_per_user q (sort_key entry_key qs) {})" by auto
    from best_per_user_problem [OF r'] have "row_problem_id r' = q" .
    with m show ?thesis by force
  qed
  have apart: "row_pair r \<noteq> row_pair r'" if "r \<in> set ?here" "r' \<in> set ?rest" for r r'
  proof
    assume "row_pair r = row_pair r'"
    then have "row_problem_id r = row_problem_id r'" by (simp add: row_pair_def)
    with best_per_user_problem [OF that(1)] rest [OF that(2)] n show False by simp
  qed
  have "set (map row_pair ?here) \<inter> set (map row_pair ?rest) = {}"
  proof (rule ccontr)
    assume "set (map row_pair ?here) \<inter> set (map row_pair ?rest) \<noteq> {}"
    then obtain x where "x \<in> set (map row_pair ?here)" "x \<in> set (map row_pair ?rest)" by blast
    then obtain r r' where "r \<in> set ?here" "r' \<in> set ?rest" "row_pair r = row_pair r'"
      by (auto simp del: set_concat)
    with apart show False by blast
  qed
  with d best_per_user_distinct_pairs [of pid "sort_key entry_key es" "{}"] g
  show ?case by simp
qed

lemma leaderboard_distinct_pairs: "distinct (map row_pair (get_leaderboard subs))"
proof -
  let ?rows = "concat (map (\<lambda>(pid, entries). best_per_user pid (sort_key entry_key entries) {})
                    (group_by_problem subs))"
  from group_by_problem_inv [of subs] have "distinct (map fst (group_by_problem subs))" by simp
  from distinct_group_rows [OF this]
  have "distinct ?rows \<and> inj_on row_pair (set ?rows)" by (simp add: distinct_map)
  then have "distinct (sort_key row_key ?rows) \<and> inj_on row_pair (set (sort_key row_key ?rows))"
    by simp
  then show ?thesis by (simp add: distinct_map get_leaderboard_rows)
qed

text \<open>
  Claim C4, as the code behaves. \<open>get_leaderboard\<close> takes no problem id. It returns
  exactly one row for every pair (user, problem) that has an entry in the list; the row
  is that of an entry of the pair with the highest score and, among the entries of the
  pair with that score, the earliest timestamp; and the rows of all problems together are
  sorted by score, highest first, and among equal scores by timestamp, earliest first, the
  timestamps being strings compared as Python compares them. For the three entries of
  problem \<open>p1\<close> with (user, score, second) = (u1, 5, 10), (u2, 5, 5), (u3, 3, 1) the
  order is u2, u1, u3.
\<close>

theorem leaderboard_order:
  "sorted_wrt (\<lambda>a b. row_score b < row_score a \<or>
                      (row_score a = row_score b \<and> row_timestamp a \<le> row_timestamp b))
     (get_leaderboard subs) \<and>
   distinct (map row_pair (get_leaderboard subs)) \<and>
   row_pair ` set (get_leaderboard subs) = entry_pair ` set subs \<and>
   (\<forall>r \<in> set (get_leaderboard subs). \<exists>e \<in> set subs. r = row_of e \<and>
      (\<forall>e' \<in> set subs. entry_pair e' = entry_pair e \<longrightarrow>
         score e' < score e \<or> (score e = score e' \<and> timestamp e \<le> timestamp e'))) \<and>
   map row_user_id (get_leaderboard
     [ranked ''s1'' ''u1'' ''p1'' 5 ''2024-01-01T00:00:10'',
      ranked ''s2'' ''u2'' ''p1'' 5 ''2024-01-01T00:00:05'',
      ranked ''s3'' ''u3'' ''p1'' 3 ''2024-01-01T00:00:01'']) = [''u2'', ''u1'', ''u3'']"
proof (intro conjI ballI)
  have "sorted (map row_key (get_leaderboard subs))"
    by (simp add: get_leaderboard_def sorted_sort_key)
  then have "sorted_wrt (\<lambda>a b. row_key a \<le> row_key b) (get_leaderboard subs)"
    by (simp add: sorted_map)
  then show "sorted_wrt (\<lambda>a b. row_score b < row_score a \<or>
                      (row_score a = row_score b \<and> row_timestamp a \<le> row_timestamp b))
     (get_leaderboard subs)"
    by (simp add: row_key_le)
next
  show "distinct (map row_pair (get_leaderboard subs))"
    by (rule leaderboard_distinct_pairs)
next
  show "row_pair ` set (get_leaderboard subs) = entry_pair ` set subs"
    by (rule leaderboard_pairs)
next
  fix r assume "r \<in> set (get_leaderboard subs)"
  then show "\<exists>e \<in> set subs. r = row_of e \<and>
      (\<forall>e' \<in> set subs. entry_pair e' = entry_pair e \<longrightarrow>
         score e' < score e \<or> (score e = score e' \<and> timestamp e \<le> timestamp e'))"
    by (rule leaderboard_row_is_best)
next
  show "map row_user_id (get_leaderboard
     [ranked ''s1'' ''u1'' ''p1'' 5 ''2024-01-01T00:00:10'',
      ranked ''s2'' ''u2'' ''p1'' 5 ''2024-01-01T00:00:05'',
      ranked ''s3'' ''u3'' ''p1'' 3 ''2024-01-01T00:00:01'']) = [''u2'', ''u1'', ''u3'']"
    by (simp add: get_leaderboard_def group_by_problem_def ranked_def entry_key_def row_key_def)
qed

text \<open>
  Witness for C4: the three entries of the example.
\<close>

theorem leaderboard_order_witness:
  "sorted_wrt (\<lambda>a b. row_score b < row_score a \<or>
                      (row_score a = row_score b \<and> row_timestamp a \<le> row_timestamp b))
     (get_leaderboard
       [ranked ''s1'' ''u1'' ''p1'' 5 ''2024-01-01T00:00:10'',
        ranked ''s2'' ''u2'' ''p1'' 5 ''2024-01-01T00:00:05'',
        ranked ''s3'' ''u3'' ''p1'' 3 ''2024-01-01T00:00:01'']) \<and>
   distinct (map row_pair (get_leaderboard
       [ranked ''s1'' ''u1'' ''p1'' 5 ''2024-01-01T00:00:10'',
        ranked ''s2'' ''u2'' ''p1'' 5 ''2024-01-01T00:00:05'',
        ranked ''s3'' ''u3'' ''p1'' 3 ''2024-01-01T00:00:01''])) \<and>
   row_pair ` set (get_leaderboard
       [ranked ''s1'' ''u1'' ''p1'' 5 ''2024-01-01T00:00:10'',
        ranked ''s2'' ''u2'' ''p1'' 5 ''2024-01-01T00:00:05'',
        ranked ''s3'' ''u3'' ''p1'' 3 ''2024-01-01T00:00:01'']) =
     {(''u1'', ''p1''), (''u2'', ''p1''), (''u3'', ''p1'')} \<and>
   get_leaderboard
       [ranked ''s1'' ''u1'' ''p1'' 5 ''2024-01-01T00:00:10'',
        ranked ''s2'' ''u2'' ''p1'' 5 ''2024-01-01T00:00:05'',
        ranked ''s3'' ''u3'' ''p1'' 3 ''2024-01-01T00:00:01''] =
     [row_of (ranked ''s2'' ''u2'' ''p1'' 5 ''2024-01-01T00:00:05''),
      row_of (ranked ''s1'' ''u1'' ''p1'' 5 ''2024-01-01T00:00:10''),
      row_of (ranked ''s3'' ''u3'' ''p1'' 3 ''2024-01-01T00:00:01'')]"
proof -
  let ?subs = "[ranked ''s1'' ''u1'' ''p1'' 5 ''2024-01-01T00:00:10'',
        ranked ''s2'' ''u2'' ''p1'' 5 ''2024-01-01T00:00:05'',
        ranked ''s3'' ''u3'' ''p1'' 3 ''2024-01-01T00:00:01'']"
  have e: "get_leaderboard ?subs =
     [row_of (ranked ''s2'' ''u2'' ''p1'' 5 ''2024-01-01T00:00:05''),
      row_of (ranked ''s1'' ''u1'' ''p1'' 5 ''2024-01-01T00:00:10''),
      row_of (ranked ''s3'' ''u3'' ''p1'' 3 ''2024-01-01T00:00:01'')]"
    by (simp add: get_leaderboard_def group_by_problem_def ranked_def entry_key_def row_key_def
        row_of_def)
  have p: "entry_pair ` set ?subs = {(''u1'', ''p1''), (''u2'', ''p1''), (''u3'', ''p1'')}"
    by (simp add: ranked_def entry_pair_def)
  from leaderboard_order [of ?subs]
  have "sorted_wrt (\<lambda>a b. row_score b < row_score a \<or>
                      (row_score a = row_score b \<and> row_timestamp a \<le> row_timestamp b))
     (get_leaderboard ?subs)"
    and "distinct (map row_pair (get_leaderboard ?subs))"
    and "row_pair ` set (get_leaderboard ?subs) = entry_pair ` set ?subs"
    by blast+
  with e p show ?thesis by simp
qed

text \<open>
  Counterexample to C4 as stated: two entries with the same score and the same timestamp
  come out in the order in which they were stored, whatever their submission ids, so the
  same two entries give two orders; and the entry of problem \<open>p2\<close> is ranked among those
  of \<open>p1\<close>.
\<close>

theorem leaderboard_tie_counterexample:
  "map row_user_id (get_leaderboard
     [ranked ''b'' ''u1'' ''p1'' 5 ''2024-01-01T00:00:05'',
      ranked ''a'' ''u2'' ''p1'' 5 ''2024-01-01T00:00:05'']) = [''u1'', ''u2''] \<and>
   map row_user_id (get_leaderboard
     [ranked ''a'' ''u2'' ''p1'' 5 ''2024-01-01T00:00:05'',
      ranked ''b'' ''u1'' ''p1'' 5 ''2024-01-01T00:00:05'']) = [''u2'', ''u1''] \<and>
   map row_problem_id (get_leaderboard
     [ranked ''s1'' ''u1'' ''p1'' 5 ''2024-01-01T00:00:10'',
      ranked ''s2'' ''u2'' ''p1'' 5 ''2024-01-01T00:00:05'',
      ranked ''s3'' ''u3'' ''p1'' 3 ''2024-01-01T00:00:01'',
      ranked ''s4'' ''u4'' ''p2'' 6 ''2024-01-01T00:00:20'']) = [''p2'', ''p1'', ''p1'', ''p1'']"
  by (simp add: get_leaderboard_def group_by_problem_def ranked_def entry_key_def row_key_def)

end
